theory Spec2Isabelle
  imports Complex_Main
begin

section \<open>Data model\<close>

text \<open>
  A Python \<^verbatim>\<open>str\<close> is a sequence of Unicode code points, and \<^verbatim>\<open>len\<close> and slicing
  count code points; it is modelled as the list of its code points. The keys of
  dictionaries and the CSS selectors are ASCII literals of the source and are written
  as HOL strings.
\<close>

type_synonym str = "nat list"

text \<open>
  \<^verbatim>\<open>@dataclass class Article\<close> of \<^verbatim>\<open>async_crawler.py\<close>. The field
  \<^verbatim>\<open>fetched_at\<close> holds a reading of \<^verbatim>\<open>time.time()\<close>; it is only carried around.
\<close>

record Article =
  title :: str
  url :: str
  content :: str
  fetched_at :: real
  status :: int

text \<open>
  The values a record dictionary (\<^verbatim>\<open>Dict[str, Any]\<close>) holds here: \<^verbatim>\<open>None\<close> or a
  \<^verbatim>\<open>str\<close>. The dictionary itself is a map from its keys.
\<close>

datatype pyval = PyNone | PyStr str

type_synonym pydict = "string \<rightharpoonup> pyval"

section \<open>Exceptions\<close>

text \<open>
  The Python exceptions the modelled code raises or catches. \<open>TimeoutError\<close> is
  \<^verbatim>\<open>asyncio.TimeoutError\<close>, \<open>SqliteError\<close> any \<^verbatim>\<open>sqlite3.Error\<close>,
  \<open>ValueError\<close>, \<open>UnicodeEncodeError\<close> and \<open>OverflowError\<close> the built-ins, and
  \<open>OtherException\<close> any other subclass of \<^verbatim>\<open>Exception\<close> (a connection error of the HTTP client, a decoding
  error, ...).
\<close>

datatype exc =
  TimeoutError | SqliteError | ValueError | UnicodeEncodeError | OverflowError | OtherException

section \<open>Store Gateway: the table and the upsert\<close>

text \<open>
  A value as the engine stores it in a column of declared type \<^verbatim>\<open>TIMESTAMP\<close>. That
  name gives the column \<^verbatim>\<open>NUMERIC\<close> affinity: a text that is a well-formed integer or real
  literal is stored as the number, every other text as it is. Which texts the engine
  reads as numbers, and as which (64-bit integers, doubles, infinities), is the
  engine's matter: it is the parameter \<open>numeric\<close> of the model, and \<open>'n\<close> is the type of
  the numbers.
\<close>

datatype 'n sqlval = SqlNull | SqlNumber 'n | SqlText str

text \<open>
  One row of the table \<^verbatim>\<open>articles\<close> created by \<^verbatim>\<open>ArticleDatabase._init_tables\<close>:
  \<^verbatim>\<open>id INTEGER PRIMARY KEY AUTOINCREMENT, title TEXT NOT NULL, url TEXT UNIQUE NOT NULL,
  content TEXT, source TEXT, category TEXT, fetched_at TIMESTAMP,
  created_at TIMESTAMP DEFAULT CURRENT_TIMESTAMP\<close>. A nullable column of type \<^verbatim>\<open>TEXT\<close>
  holds an option (\<open>None\<close> is SQL \<^verbatim>\<open>NULL\<close>); the two \<^verbatim>\<open>TIMESTAMP\<close> columns hold an
  \<open>sqlval\<close>. The fields carry the prefix \<open>r_\<close> because \<open>id\<close> is a constant of HOL and
  \<open>title\<close>, \<open>url\<close>, \<open>content\<close>, \<open>fetched_at\<close> are the fields of \<open>Article\<close>.
\<close>

record 'n row =
  r_id :: int
  r_title :: str
  r_url :: str
  r_content :: "str option"
  r_source :: "str option"
  r_category :: "str option"
  r_fetched_at :: "'n sqlval"
  r_created_at :: "'n sqlval"

text \<open>
  The database file: the rows of \<^verbatim>\<open>articles\<close>, and the largest rowid that a row of
  the table has held so far. \<^verbatim>\<open>AUTOINCREMENT\<close> never hands out a rowid again, also
  after \<^verbatim>\<open>delete_old_articles\<close> has removed its row; the counter that the engine keeps
  for this (its table \<^verbatim>\<open>sqlite_sequence\<close>) is at least \<open>highest_rowid\<close>.
\<close>

record 'n database =
  articles :: "'n row list"
  highest_rowid :: int

definition empty_database :: "'n database" where
  "empty_database = \<lparr>articles = [], highest_rowid = 0\<rparr>"

text \<open>
  What the storage layer does during one call of \<^verbatim>\<open>insert_article\<close>; the code has a
  branch for each:
  \<^item> \<open>ConnectError\<close>: \<^verbatim>\<open>sqlite3.connect\<close> raises (in \<^verbatim>\<open>_get_connection\<close>, outside
    every \<^verbatim>\<open>try\<close>);
  \<^item> \<open>PrepareError\<close>: \<^verbatim>\<open>conn.execute\<close> raises a \<^verbatim>\<open>sqlite3.Error\<close> of the engine
    before the binding of a parameter has raised (the statement cannot be compiled or
    the transaction cannot be opened: no such table, a damaged file; or the engine
    refuses a text that is longer than its length limit);
  \<^item> \<open>ExecuteError\<close>: \<^verbatim>\<open>conn.execute\<close> raises a \<^verbatim>\<open>sqlite3.Error\<close> when the engine
    runs the statement, after the parameters are bound, for a reason of the environment
    (database locked, disk full, file not writable, row too big, rowids exhausted);
  \<^item> \<open>CommitError\<close>: \<^verbatim>\<open>conn.commit()\<close> raises after the body of the \<^verbatim>\<open>with\<close>;
  \<^item> \<open>Executes k\<close>: the engine runs the statement. For a new row, \<^verbatim>\<open>AUTOINCREMENT\<close>
    promises a rowid larger than every rowid the table ever held, not the next
    integer (the engine skips the rowids it took for inserts that ended as updates):
    \<open>k\<close> is the number of identifiers it skips.
\<close>

datatype storage = Executes nat | ConnectError | PrepareError | ExecuteError | CommitError

text \<open>
  Binding a parameter encodes a \<^verbatim>\<open>str\<close> in UTF-8, which no surrogate code point
  (U+D800 to U+DFFF) has: a \<^verbatim>\<open>str\<close> that holds one makes the binding raise
  \<^verbatim>\<open>UnicodeEncodeError\<close>. The encoding takes one to four bytes for a code point, and
  the binding raises \<^verbatim>\<open>OverflowError\<close> when it is longer than \<^verbatim>\<open>INT_MAX\<close> bytes.
  \<^verbatim>\<open>None\<close> is bound as \<^verbatim>\<open>NULL\<close>.
\<close>

definition encodable :: "str \<Rightarrow> bool" where
  "encodable s = list_all (\<lambda>c. c < 55296 \<or> 57343 < c) s"

definition utf8_length :: "str \<Rightarrow> nat" where
  "utf8_length s =
     sum_list (map (\<lambda>c. if c < 128 then 1 else if c < 2048 then 2
                         else if c < 65536 then 3 else 4) s)"

fun bind_value :: "pyval \<Rightarrow> exc + pyval" where
  "bind_value PyNone = Inr PyNone"
| "bind_value (PyStr s) =
     (if \<not> encodable s then Inl UnicodeEncodeError
      else if 2147483647 < utf8_length s then Inl OverflowError
      else Inr (PyStr s))"

text \<open>The values whose binding raises nothing.\<close>

fun bindable :: "pyval \<Rightarrow> bool" where
  "bindable PyNone = True"
| "bindable (PyStr s) = (encodable s \<and> utf8_length s \<le> 2147483647)"

text \<open>
  One named parameter \<^verbatim>\<open>:name\<close>: a name with no key in the dictionary raises
  \<^verbatim>\<open>sqlite3.ProgrammingError\<close> (a \<^verbatim>\<open>sqlite3.Error\<close>).
\<close>

definition bind_parameter :: "pydict \<Rightarrow> string \<Rightarrow> exc + pyval" where
  "bind_parameter article name =
     (case article name of
        None \<Rightarrow> Inl SqliteError
      | Some v \<Rightarrow> bind_value v)"

text \<open>
  The five parameters of the statement, bound in the order in which the statement names
  them; the first that fails ends the binding with its exception.
\<close>

definition bind_parameters :: "pydict \<Rightarrow> exc + (pyval \<times> pyval \<times> pyval \<times> pyval \<times> pyval)" where
  "bind_parameters article =
     (case bind_parameter article ''title'' of
        Inl e \<Rightarrow> Inl e
      | Inr t \<Rightarrow>
     (case bind_parameter article ''url'' of
        Inl e \<Rightarrow> Inl e
      | Inr u \<Rightarrow>
     (case bind_parameter article ''content'' of
        Inl e \<Rightarrow> Inl e
      | Inr c \<Rightarrow>
     (case bind_parameter article ''source'' of
        Inl e \<Rightarrow> Inl e
      | Inr s \<Rightarrow>
     (case bind_parameter article ''fetched_at'' of
        Inl e \<Rightarrow> Inl e
      | Inr f \<Rightarrow> Inr (t, u, c, s, f))))))"

text \<open>A bound value in a column of type \<^verbatim>\<open>TEXT\<close>: \<^verbatim>\<open>None\<close> is \<^verbatim>\<open>NULL\<close>.\<close>

fun sql :: "pyval \<Rightarrow> str option" where
  "sql PyNone = None"
| "sql (PyStr s) = Some s"

text \<open>
  A bound value in a column of type \<^verbatim>\<open>TIMESTAMP\<close>: \<open>numeric s\<close> is the number that
  the engine reads the text \<open>s\<close> as, if it reads it as one.
\<close>

fun numeric_affinity :: "(str \<Rightarrow> 'n option) \<Rightarrow> pyval \<Rightarrow> 'n sqlval" where
  "numeric_affinity numeric PyNone = SqlNull"
| "numeric_affinity numeric (PyStr s) =
     (case numeric s of Some x \<Rightarrow> SqlNumber x | None \<Rightarrow> SqlText s)"

text \<open>The rowid of a new row: above the counter and above every rowid in the table.\<close>

definition new_rowid :: "nat \<Rightarrow> 'n database \<Rightarrow> int" where
  "new_rowid k db = foldr max (map r_id (articles db)) (highest_rowid db) + 1 + int k"

text \<open>
  The statement of \<^verbatim>\<open>insert_article\<close> with its parameters bound:
  \<^verbatim>\<open>INSERT INTO articles (title, url, content, source, fetched_at)
  VALUES (:title, :url, :content, :source, :fetched_at)
  ON CONFLICT(url) DO UPDATE SET title=excluded.title, content=excluded.content,
  fetched_at=excluded.fetched_at RETURNING id\<close>
  run when \<^verbatim>\<open>CURRENT_TIMESTAMP\<close> reads \<open>now\<close>. A \<^verbatim>\<open>NULL\<close> title or url violates
  \<^verbatim>\<open>NOT NULL\<close> (\<^verbatim>\<open>sqlite3.IntegrityError\<close>, a \<^verbatim>\<open>sqlite3.Error\<close>) and leaves the table
  as it was. Otherwise the result is the \<^verbatim>\<open>id\<close> that \<^verbatim>\<open>RETURNING\<close> yields and the new
  table. The default of \<^verbatim>\<open>created_at\<close> passes through the affinity of its column as
  every value does (the texts that \<^verbatim>\<open>CURRENT_TIMESTAMP\<close> gives are no numbers).
\<close>

fun run_statement ::
  "(str \<Rightarrow> 'n option) \<Rightarrow> nat \<Rightarrow> str \<Rightarrow> pyval \<times> pyval \<times> pyval \<times> pyval \<times> pyval \<Rightarrow> 'n database
     \<Rightarrow> exc + (int \<times> 'n database)" where
  "run_statement numeric k now (PyStr t, PyStr u, c, s, f) db =
     (case find (\<lambda>r. r_url r = u) (articles db) of
        Some old \<Rightarrow>
          Inr (r_id old,
               db\<lparr>articles :=
                    map (\<lambda>r. if r_url r = u
                              then r\<lparr>r_title := t, r_content := sql c,
                                     r_fetched_at := numeric_affinity numeric f\<rparr>
                              else r) (articles db)\<rparr>)
      | None \<Rightarrow>
          Inr (new_rowid k db,
               db\<lparr>articles := articles db @
                     [\<lparr>r_id = new_rowid k db, r_title = t, r_url = u, r_content = sql c,
                       r_source = sql s, r_category = None,
                       r_fetched_at = numeric_affinity numeric f,
                       r_created_at = numeric_affinity numeric (PyStr now)\<rparr>],
                  highest_rowid := new_rowid k db\<rparr>))"
| "run_statement numeric k now (PyNone, u, c, s, f) db = Inl SqliteError"
| "run_statement numeric k now (PyStr t, PyNone, c, s, f) db = Inl SqliteError"

text \<open>
  \<^verbatim>\<open>conn.execute(statement, article)\<close> when the engine runs the statement: the
  parameters are bound from the dictionary \<open>article\<close>, then the statement runs.
\<close>

definition upsert ::
  "(str \<Rightarrow> 'n option) \<Rightarrow> nat \<Rightarrow> str \<Rightarrow> pydict \<Rightarrow> 'n database \<Rightarrow> exc + (int \<times> 'n database)" where
  "upsert numeric k now article db =
     (case bind_parameters article of
        Inl e \<Rightarrow> Inl e
      | Inr bound \<Rightarrow> run_statement numeric k now bound db)"

text \<open>
  \<^verbatim>\<open>except sqlite3.Error\<close> in \<^verbatim>\<open>insert_article\<close>: what it catches makes the method
  return \<^verbatim>\<open>None\<close>; every other exception leaves the method (\<^verbatim>\<open>_get_connection\<close>
  rolls back and raises it again).
\<close>

fun except_sqlite3_Error :: "exc \<Rightarrow> 'n database \<Rightarrow> (exc + int option) \<times> 'n database" where
  "except_sqlite3_Error SqliteError db = (Inr None, db)"
| "except_sqlite3_Error e db = (Inl e, db)"

text \<open>
  \<^verbatim>\<open>ArticleDatabase.insert_article\<close> inside \<^verbatim>\<open>_get_connection\<close>. The result is the
  exception that leaves the method (\<open>Inl\<close>) or the returned \<^verbatim>\<open>Optional[int]\<close>
  (\<open>Inr\<close>), with the database afterwards. An error of \<^verbatim>\<open>connect\<close> or of \<^verbatim>\<open>commit\<close>
  is not caught (\<^verbatim>\<open>_get_connection\<close> rolls back and raises again); \<^verbatim>\<open>commit\<close> is
  reached when the body of the \<^verbatim>\<open>with\<close> returned, with an identifier or with
  \<^verbatim>\<open>None\<close>, and not when the binding raised \<^verbatim>\<open>UnicodeEncodeError\<close> or
  \<^verbatim>\<open>OverflowError\<close>.
\<close>

definition insert_article ::
  "(str \<Rightarrow> 'n option) \<Rightarrow> storage \<Rightarrow> str \<Rightarrow> pydict \<Rightarrow> 'n database
     \<Rightarrow> (exc + int option) \<times> 'n database" where
  "insert_article numeric ev now article db =
     (case ev of
        ConnectError \<Rightarrow> (Inl SqliteError, db)
      | PrepareError \<Rightarrow> (Inr None, db)
      | ExecuteError \<Rightarrow>
          (case bind_parameters article of
             Inl e \<Rightarrow> except_sqlite3_Error e db
           | Inr bound \<Rightarrow> (Inr None, db))
      | CommitError \<Rightarrow>
          (case bind_parameters article of
             Inl e \<Rightarrow>
               (case except_sqlite3_Error e db of
                  (Inl e', db') \<Rightarrow> (Inl e', db')
                | (Inr article_id, db') \<Rightarrow> (Inl SqliteError, db'))
           | Inr bound \<Rightarrow> (Inl SqliteError, db))
      | Executes k \<Rightarrow>
          (case upsert numeric k now article db of
             Inl e \<Rightarrow> except_sqlite3_Error e db
           | Inr (article_id, db') \<Rightarrow> (Inr (Some article_id), db')))"

text \<open>
  What the schema guarantees of every table: \<^verbatim>\<open>url\<close> is \<^verbatim>\<open>UNIQUE\<close>, \<^verbatim>\<open>id\<close> is the
  primary key, and the rowids that \<^verbatim>\<open>AUTOINCREMENT\<close> hands out start at 1.
\<close>

definition table_ok :: "'n database \<Rightarrow> bool" where
  "table_ok db \<longleftrightarrow>
     distinct (map r_url (articles db)) \<and> distinct (map r_id (articles db)) \<and>
     list_all (\<lambda>r. 1 \<le> r_id r) (articles db) \<and> 0 \<le> highest_rowid db"

section \<open>Record Mapper\<close>

text \<open>
  \<^verbatim>\<open>CrawlerPipeline.article_to_record\<close>. A slice \<^verbatim>\<open>s[:n]\<close> is \<^term>\<open>take n s\<close>.
  \<^verbatim>\<open>datetime.fromtimestamp(t).isoformat()\<close> formats in the local time zone of the
  machine; it is the parameter \<open>isoformat\<close>.
\<close>

definition article_to_record :: "(real \<Rightarrow> str) \<Rightarrow> Article \<Rightarrow> str \<Rightarrow> pydict" where
  "article_to_record isoformat article source =
     [''title'' \<mapsto> PyStr (take 200 (title article)),
      ''url'' \<mapsto> PyStr (url article),
      ''content'' \<mapsto> PyStr (take 2000 (content article)),
      ''source'' \<mapsto> PyStr source,
      ''fetched_at'' \<mapsto> PyStr (isoformat (fetched_at article))]"

section \<open>Fetch Unit\<close>

text \<open>
  The HTML library (\<^verbatim>\<open>bs4\<close> with the \<^verbatim>\<open>lxml\<close> parser) is not code of the
  repository: its operations are parameters. A parsed document and an element of it are
  values of one type \<open>'tag\<close> (\<^verbatim>\<open>BeautifulSoup\<close> is a subclass of \<^verbatim>\<open>Tag\<close>).
  \<^item> \<open>BeautifulSoup html\<close> is \<^verbatim>\<open>BeautifulSoup(html, 'lxml')\<close>; it may raise.
  \<^item> \<open>select_one t sel\<close> is \<^verbatim>\<open>t.select_one(sel)\<close>: an element or \<^verbatim>\<open>None\<close>. An
    element is always true in a condition (\<^verbatim>\<open>Tag.__bool__\<close> returns \<^verbatim>\<open>True\<close>), so
    \<^verbatim>\<open>if tag:\<close> tests only that one was found.
  \<^item> \<open>decompose t names\<close> is the document after
    \<^verbatim>\<open>for noise in t(names): noise.decompose()\<close>.
  \<^item> \<open>find_all t name\<close> is \<^verbatim>\<open>t.find_all(name)\<close>.
  \<^item> \<open>get_text t sep strip\<close> is \<^verbatim>\<open>t.get_text(separator=sep, strip=strip)\<close>; the
    defaults are the empty separator and \<^verbatim>\<open>strip=False\<close>.
\<close>

record 'tag bs4 =
  BeautifulSoup :: "str \<Rightarrow> exc + 'tag"
  select_one :: "'tag \<Rightarrow> string \<Rightarrow> 'tag option"
  decompose :: "'tag \<Rightarrow> string list \<Rightarrow> 'tag"
  find_all :: "'tag \<Rightarrow> string \<Rightarrow> 'tag list"
  get_text :: "'tag \<Rightarrow> str \<Rightarrow> bool \<Rightarrow> str"

text \<open>The placeholder title of \<^verbatim>\<open>_extract_title\<close>: three code points (U+65E0 U+6807 U+9898).\<close>

definition no_title :: str where
  "no_title = [26080, 26631, 39064]"

text \<open>
  \<^verbatim>\<open>AsyncCrawler._extract_title\<close>: the loop over the selectors returns at the first one that
  finds an element, with the stripped text of that element cut to 200; after the loop
  the placeholder is returned.
\<close>

fun extract_title_loop :: "'tag bs4 \<Rightarrow> 'tag \<Rightarrow> string list \<Rightarrow> str" where
  "extract_title_loop lib soup [] = no_title"
| "extract_title_loop lib soup (selector # selectors) =
     (case select_one lib soup selector of
        Some tag \<Rightarrow> take 200 (get_text lib tag [] True)
      | None \<Rightarrow> extract_title_loop lib soup selectors)"

definition title_selectors :: "string list" where
  "title_selectors =
     [''h1.article-title'', ''h1.entry-title'', ''h1.post-title'', ''h1'', ''title'',
      ''.article-header h1'']"

definition extract_title :: "'tag bs4 \<Rightarrow> 'tag \<Rightarrow> str" where
  "extract_title lib soup = extract_title_loop lib soup title_selectors"

text \<open>
  \<^verbatim>\<open>max(paragraphs, key=lambda p: len(p.get_text()))\<close>: the first paragraph of greatest
  key; \<open>best\<close> is the greatest so far.
\<close>

fun max_by :: "('a \<Rightarrow> nat) \<Rightarrow> 'a \<Rightarrow> 'a list \<Rightarrow> 'a" where
  "max_by key best [] = best"
| "max_by key best (p # ps) = max_by key (if key best < key p then p else best) ps"

text \<open>
  \<^verbatim>\<open>AsyncCrawler._extract_content\<close>, after the noise elements are removed: the loop over
  the container selectors, then the longest paragraph, then the text of the whole
  document. The separator \<^verbatim>\<open>'\n'\<close> is the code point 10.
\<close>

fun extract_content_loop :: "'tag bs4 \<Rightarrow> 'tag \<Rightarrow> string list \<Rightarrow> str" where
  "extract_content_loop lib soup [] =
     (case find_all lib soup ''p'' of
        p # ps \<Rightarrow>
          take 10000 (get_text lib (max_by (\<lambda>p. length (get_text lib p [] False)) p ps) [] True)
      | [] \<Rightarrow> take 5000 (get_text lib soup [10] True))"
| "extract_content_loop lib soup (selector # selectors) =
     (case select_one lib soup selector of
        Some container \<Rightarrow> take 10000 (get_text lib container [10] True)
      | None \<Rightarrow> extract_content_loop lib soup selectors)"

definition extract_content :: "'tag bs4 \<Rightarrow> 'tag \<Rightarrow> str" where
  "extract_content lib soup =
     extract_content_loop lib
       (decompose lib soup [''script'', ''style'', ''nav'', ''header'', ''footer'', ''aside''])
       [''article'', ''main'', ''.article-content'', ''.post-content'', ''.entry-content'',
        ''[role=\"main\"]'']"

text \<open>
  The crawler object. \<open>semaphore\<close> is the number of free permits of
  \<^verbatim>\<open>self.semaphore\<close>, \<open>session\<close> tells whether \<^verbatim>\<open>self.session\<close> is set, and the two
  counters are \<^verbatim>\<open>self.stats["success"]\<close> and \<^verbatim>\<open>self.stats["failed"]\<close>. The entry
  \<^verbatim>\<open>"total_time"\<close>, a sum of wall-clock differences, and the waits
  (\<^verbatim>\<open>asyncio.sleep(self.delay)\<close>, the time limit of the session) are outside the model.
\<close>

record AsyncCrawler =
  semaphore :: nat
  delay :: real
  timeout :: int
  session :: bool
  stats_success :: int
  stats_failed :: int

text \<open>
  \<^verbatim>\<open>AsyncCrawler.__init__\<close>. \<^verbatim>\<open>asyncio.Semaphore(value)\<close> raises \<^verbatim>\<open>ValueError\<close> when
  \<^verbatim>\<open>value < 0\<close> and accepts every other value, also 0; nothing else in the constructor
  looks at \<open>max_concurrent\<close>.
\<close>

definition AsyncCrawler_init :: "int \<Rightarrow> real \<Rightarrow> int \<Rightarrow> exc + AsyncCrawler" where
  "AsyncCrawler_init max_concurrent delay_s timeout_s =
     (if max_concurrent < 0 then Inl ValueError
      else Inr \<lparr>semaphore = nat max_concurrent, delay = delay_s, timeout = timeout_s,
                session = False, stats_success = 0, stats_failed = 0\<rparr>)"

text \<open>\<^verbatim>\<open>__aenter__\<close> creates the session; \<^verbatim>\<open>__aexit__\<close> closes it and keeps the attribute.\<close>

definition aenter :: "AsyncCrawler \<Rightarrow> AsyncCrawler" where
  "aenter self = self\<lparr>session := True\<rparr>"

text \<open>
  What the network does to one \<^verbatim>\<open>GET\<close>: \<^verbatim>\<open>self.session.get(url)\<close> raises, or a response
  arrives with a status and with what \<^verbatim>\<open>await response.text()\<close> does (it raises, or
  gives the decoded body).
\<close>

datatype reaction = GetRaises exc | Response int "exc + str"

text \<open>
  The two handlers of \<^verbatim>\<open>fetch_one\<close>, \<^verbatim>\<open>except asyncio.TimeoutError\<close> and
  \<^verbatim>\<open>except Exception\<close>: they log different messages and otherwise do the same.
\<close>

fun handler :: "exc \<Rightarrow> AsyncCrawler \<Rightarrow> Article option \<times> AsyncCrawler" where
  "handler TimeoutError self = (None, self\<lparr>stats_failed := stats_failed self + 1\<rparr>)"
| "handler e self = (None, self\<lparr>stats_failed := stats_failed self + 1\<rparr>)"

text \<open>
  \<^verbatim>\<open>AsyncCrawler.fetch_one\<close>, the body of \<^verbatim>\<open>async with self.semaphore\<close>, for the target
  \<open>target\<close> when the network reacts with \<open>reaction\<close> and \<^verbatim>\<open>time.time()\<close> reads \<open>now\<close>
  as the article is built. The result is the returned \<^verbatim>\<open>Optional[Article]\<close> and the
  crawler with its counters updated. Every statement that can raise stands in the
  \<^verbatim>\<open>try\<close>, and the last handler catches every \<^verbatim>\<open>Exception\<close>; when \<^verbatim>\<open>self.session\<close> is
  \<^verbatim>\<open>None\<close>, \<^verbatim>\<open>self.session.get\<close> raises \<^verbatim>\<open>AttributeError\<close> there.
\<close>

definition fetch_one ::
  "'tag bs4 \<Rightarrow> AsyncCrawler \<Rightarrow> str \<Rightarrow> reaction \<Rightarrow> real \<Rightarrow> Article option \<times> AsyncCrawler" where
  "fetch_one lib self target reaction now =
     (if \<not> session self then handler OtherException self
      else
        (case reaction of
           GetRaises e \<Rightarrow> handler e self
         | Response response_status response_text \<Rightarrow>
             if response_status \<noteq> 200
             then (Some \<lparr>title = [], url = target, content = [], fetched_at = now,
                         status = response_status\<rparr>,
                   self\<lparr>stats_failed := stats_failed self + 1\<rparr>)
             else
               (case response_text of
                  Inl e \<Rightarrow> handler e self
                | Inr html \<Rightarrow>
                    (case BeautifulSoup lib
                            (if 1000000 < length html then take 1000000 html else html) of
                       Inl e \<Rightarrow> handler e self
                     | Inr soup \<Rightarrow>
                         (Some \<lparr>title = extract_title lib soup, url = target,
                                 content = extract_content lib soup, fetched_at = now,
                                 status = 200\<rparr>,
                          self\<lparr>stats_success := stats_success self + 1\<rparr>)))))"

section \<open>Batch Fetcher\<close>

text \<open>
  The environment of one batch: for the task at position \<open>i\<close>, how the network reacts
  to its request and what the clock reads when its article is built.
\<close>

type_synonym world = "nat \<Rightarrow> reaction \<times> real"

text \<open>
  \<^verbatim>\<open>asyncio.gather(*tasks, return_exceptions=True)\<close> over
  \<^verbatim>\<open>[self.fetch_one(url) for url in urls]\<close>: the list of the tasks' results in the order
  of the tasks, each the value a task returned (\<open>Inr\<close>) or the exception it raised
  (\<open>Inl\<close>). A task reads nothing another task writes but the two counters, which are
  only incremented (with no \<^verbatim>\<open>await\<close> between the read and the write), so the order in
  which the event loop runs the tasks changes no result; the tasks are run here in the
  order of the list. The interleaving itself, with the semaphore, is the transition
  system \<open>step\<close> below, and \<open>final_results\<close> proves that every interleaving ends
  with these results.
\<close>

fun gather ::
  "'tag bs4 \<Rightarrow> world \<Rightarrow> AsyncCrawler \<Rightarrow> nat \<Rightarrow> str list
     \<Rightarrow> (exc + Article option) list \<times> AsyncCrawler" where
  "gather lib world self i [] = ([], self)"
| "gather lib world self i (target # targets) =
     (case fetch_one lib self target (fst (world i)) (snd (world i)) of
        (r, self') \<Rightarrow>
          (case gather lib world self' (Suc i) targets of
             (rs, self'') \<Rightarrow> (Inr r # rs, self'')))"

text \<open>
  The filter of \<^verbatim>\<open>fetch_many\<close>: \<^verbatim>\<open>if isinstance(r, Article) and r.status == 200\<close>
  keeps the result, \<^verbatim>\<open>elif isinstance(r, Exception)\<close> logs it, and every other result
  (\<^verbatim>\<open>None\<close>, an article of another status) is passed over.
\<close>

fun filter_results :: "(exc + Article option) list \<Rightarrow> Article list" where
  "filter_results [] = []"
| "filter_results (Inr (Some r) # rs) =
     (if status r = 200 then r # filter_results rs else filter_results rs)"
| "filter_results (Inr None # rs) = filter_results rs"
| "filter_results (Inl e # rs) = filter_results rs"

text \<open>
  \<^verbatim>\<open>AsyncCrawler.fetch_many\<close>. The result is \<open>None\<close> when the call never returns: every
  task waits in \<^verbatim>\<open>async with self.semaphore\<close> for a permit, and a semaphore made with
  0 permits never has one (\<open>no_permit_no_step\<close> below).
\<close>

definition fetch_many ::
  "'tag bs4 \<Rightarrow> world \<Rightarrow> AsyncCrawler \<Rightarrow> str list \<Rightarrow> (Article list \<times> AsyncCrawler) option" where
  "fetch_many lib world self urls =
     (if urls \<noteq> [] \<and> semaphore self = 0 then None
      else
        (case gather lib world self 0 urls of
           (results, self') \<Rightarrow> Some (filter_results results, self')))"

section \<open>Concurrency Gate\<close>

text \<open>
  The tasks of one batch as the event loop interleaves them. A task is \<open>Waiting\<close>
  before it has entered \<^verbatim>\<open>async with self.semaphore\<close>, \<open>Running\<close> inside the block
  (a Fetch Unit between acquire and release), and \<open>Finished r\<close> once it has left the
  block; \<open>r\<close> is what it returned or raised.
\<close>

datatype phase = Waiting | Running | Finished "exc + Article option"

record batch =
  permits :: nat
  phases :: "phase list"
  crawler :: AsyncCrawler

text \<open>
  One step of one task. \<^verbatim>\<open>Semaphore.acquire\<close> returns only when a permit is free and
  takes it; which of the waiting tasks gets a free permit is left open here (the
  library serves them in the order of their arrival). Leaving the \<^verbatim>\<open>async with\<close>
  block runs \<^verbatim>\<open>Semaphore.release\<close> however the block is left: by one of the
  \<^verbatim>\<open>return\<close> statements of \<^verbatim>\<open>fetch_one\<close> (rule \<open>returns\<close>), or by an exception
  (rule \<open>raises\<close>). The handlers of \<^verbatim>\<open>fetch_one\<close> catch every \<^verbatim>\<open>Exception\<close>, so the
  second rule allows more than the body does; it stands for the release that
  \<^verbatim>\<open>async with\<close> runs on an exception too.
\<close>

inductive step :: "'tag bs4 \<Rightarrow> world \<Rightarrow> str list \<Rightarrow> batch \<Rightarrow> batch \<Rightarrow> bool"
  for lib :: "'tag bs4" and world :: world and urls :: "str list" where
  acquire:
    "i < length (phases s) \<Longrightarrow> phases s ! i = Waiting \<Longrightarrow> 0 < permits s \<Longrightarrow>
     step lib world urls s
       (s\<lparr>permits := permits s - 1, phases := (phases s)[i := Running]\<rparr>)"
| returns:
    "i < length (phases s) \<Longrightarrow> phases s ! i = Running \<Longrightarrow>
     fetch_one lib (crawler s) (urls ! i) (fst (world i)) (snd (world i)) = (r, self') \<Longrightarrow>
     step lib world urls s
       (s\<lparr>permits := permits s + 1, phases := (phases s)[i := Finished (Inr r)],
          crawler := self'\<rparr>)"
| raises:
    "i < length (phases s) \<Longrightarrow> phases s ! i = Running \<Longrightarrow>
     step lib world urls s
       (s\<lparr>permits := permits s + 1, phases := (phases s)[i := Finished (Inl e)]\<rparr>)"

code_pred step .

text \<open>The batch as \<^verbatim>\<open>fetch_many\<close> creates it: one waiting task for each url.\<close>

definition start :: "AsyncCrawler \<Rightarrow> str list \<Rightarrow> batch" where
  "start self urls =
     \<lparr>permits = semaphore self, phases = replicate (length urls) Waiting, crawler = self\<rparr>"

text \<open>The number of Fetch Units between acquire and release.\<close>

definition running :: "batch \<Rightarrow> nat" where
  "running s = length (filter (\<lambda>p. p = Running) (phases s))"

definition finished :: "phase \<Rightarrow> bool" where
  "finished p = (case p of Finished r \<Rightarrow> True | _ \<Rightarrow> False)"

text \<open>The states a batch can be in: those the steps lead to from its start.\<close>

inductive reachable :: "'tag bs4 \<Rightarrow> world \<Rightarrow> AsyncCrawler \<Rightarrow> str list \<Rightarrow> batch \<Rightarrow> bool"
  for lib :: "'tag bs4" and world :: world and self :: AsyncCrawler and urls :: "str list" where
  at_start: "reachable lib world self urls (start self urls)"
| after_step:
    "reachable lib world self urls s \<Longrightarrow> step lib world urls s s' \<Longrightarrow>
     reachable lib world self urls s'"

code_pred reachable .

text \<open>
  The steps a batch still has to take: a task takes two when it waits and one when it
  runs.
\<close>

definition steps_left :: "batch \<Rightarrow> nat" where
  "steps_left s = 2 * length (filter (\<lambda>p. p = Waiting) (phases s))
                  + length (filter (\<lambda>p. p = Running) (phases s))"

section \<open>Pipeline Coordinator\<close>

text \<open>The dictionary \<^verbatim>\<open>stats\<close> of \<^verbatim>\<open>crawl_and_store\<close>, with Python's unbounded integers.\<close>

record stats =
  s_total :: int
  s_success :: int
  s_failed :: int
  s_stored :: int

text \<open>How a call ends: with an exception, never, or with a value.\<close>

datatype 'a outcome = Raises exc | Hangs | Returns 'a

text \<open>
  The environment of the store: what the storage layer does at the \<open>n\<close>-th call of
  \<^verbatim>\<open>insert_article\<close> of this invocation and what \<^verbatim>\<open>CURRENT_TIMESTAMP\<close> reads there.
\<close>

type_synonym store_world = "nat \<Rightarrow> storage \<times> str"

text \<open>The truth value of \<^verbatim>\<open>article_id\<close> in \<^verbatim>\<open>if article_id:\<close>.\<close>

fun truthy :: "int option \<Rightarrow> bool" where
  "truthy None = False"
| "truthy (Some n) = (n \<noteq> 0)"

text \<open>
  The storing loop of \<^verbatim>\<open>crawl_and_store\<close>: \<open>n\<close> counts the calls of
  \<^verbatim>\<open>insert_article\<close> made so far, \<open>stored\<close> is \<^verbatim>\<open>stats["stored"]\<close>. An exception of
  \<^verbatim>\<open>insert_article\<close> leaves the loop and the method.
\<close>

fun store_loop ::
  "(str \<Rightarrow> 'n option) \<Rightarrow> (real \<Rightarrow> str) \<Rightarrow> store_world \<Rightarrow> str \<Rightarrow> nat \<Rightarrow> Article list
     \<Rightarrow> 'n database \<Rightarrow> int \<Rightarrow> (exc + int) \<times> 'n database" where
  "store_loop numeric isoformat sworld source n [] db stored = (Inr stored, db)"
| "store_loop numeric isoformat sworld source n (article # rest) db stored =
     (if status article = 200
      then
        (case insert_article numeric (fst (sworld n)) (snd (sworld n))
                (article_to_record isoformat article source) db of
           (Inl e, db') \<Rightarrow> (Inl e, db')
         | (Inr article_id, db') \<Rightarrow>
             store_loop numeric isoformat sworld source (Suc n) rest db'
               (if truthy article_id then stored + 1 else stored))
      else store_loop numeric isoformat sworld source n rest db stored)"

text \<open>
  \<^verbatim>\<open>CrawlerPipeline.crawl_and_store\<close> on the database \<open>db\<close>; the crawler is made with the
  default time limit of 30 seconds, and the store is the engine that reads numbers as
  \<open>numeric\<close> does; \<open>fetched\<close> is the local \<^verbatim>\<open>articles\<close>. An \<open>Article\<close> is always
  true in a condition, so \<^verbatim>\<open>a and a.status == 200\<close> is \<^verbatim>\<open>a.status == 200\<close>.
\<close>

definition crawl_and_store ::
  "'tag bs4 \<Rightarrow> (str \<Rightarrow> 'n option) \<Rightarrow> (real \<Rightarrow> str) \<Rightarrow> world \<Rightarrow> store_world \<Rightarrow> 'n database
     \<Rightarrow> str list \<Rightarrow> str \<Rightarrow> int \<Rightarrow> real \<Rightarrow> stats outcome \<times> 'n database" where
  "crawl_and_store lib numeric isoformat world sworld db urls source max_concurrent delay_s =
     (case AsyncCrawler_init max_concurrent delay_s 30 of
        Inl e \<Rightarrow> (Raises e, db)
      | Inr self \<Rightarrow>
          (case fetch_many lib world (aenter self) urls of
             None \<Rightarrow> (Hangs, db)
           | Some (fetched, self') \<Rightarrow>
               (case store_loop numeric isoformat sworld source 0 fetched db 0 of
                  (Inl e, db') \<Rightarrow> (Raises e, db')
                | (Inr stored, db') \<Rightarrow>
                    (Returns
                       \<lparr>s_total = int (length urls),
                        s_success = int (length (filter (\<lambda>a. status a = 200) fetched)),
                        s_failed = int (length urls)
                                   - int (length (filter (\<lambda>a. status a = 200) fetched)),
                        s_stored = stored\<rparr>,
                     db'))))"

text \<open>
  The identifiers the store returns to the storing loop, call by call, up to the first
  call that raises: the trace against which \<^verbatim>\<open>stats["stored"]\<close> is stated.
\<close>

fun store_trace ::
  "(str \<Rightarrow> 'n option) \<Rightarrow> (real \<Rightarrow> str) \<Rightarrow> store_world \<Rightarrow> str \<Rightarrow> nat \<Rightarrow> Article list
     \<Rightarrow> 'n database \<Rightarrow> (exc + int option) list" where
  "store_trace numeric isoformat sworld source n [] db = []"
| "store_trace numeric isoformat sworld source n (article # rest) db =
     (if status article = 200
      then
        (case insert_article numeric (fst (sworld n)) (snd (sworld n))
                (article_to_record isoformat article source) db of
           (Inl e, db') \<Rightarrow> [Inl e]
         | (Inr article_id, db') \<Rightarrow>
             Inr article_id # store_trace numeric isoformat sworld source (Suc n) rest db')
      else store_trace numeric isoformat sworld source n rest db)"

text \<open>
  Whether a call of the trace is counted by the loop (\<^verbatim>\<open>if article_id:\<close>), and whether
  the store returned an identifier at it.
\<close>

fun counted :: "exc + int option \<Rightarrow> bool" where
  "counted (Inr article_id) = truthy article_id"
| "counted (Inl e) = False"

fun returned_id :: "exc + int option \<Rightarrow> bool" where
  "returned_id (Inr (Some article_id)) = True"
| "returned_id (Inr None) = False"
| "returned_id (Inl e) = False"

section \<open>A stand-in for the HTML library\<close>

text \<open>
  To run the extraction on a concrete document, the operations of the library are
  given here for documents of the simplest kind: an element has a name, its text
  (stripped) and its child elements; a selector is matched as an element name against
  the children. \<open>document_lib doc\<close> is a library whose parser yields \<open>doc\<close>.
\<close>

datatype node = Node (node_name: string) (node_text: str) (node_children: "node list")

definition document_lib :: "node \<Rightarrow> node bs4" where
  "document_lib doc =
     \<lparr>BeautifulSoup = (\<lambda>html. Inr doc),
      select_one = (\<lambda>t selector. find (\<lambda>c. node_name c = selector) (node_children t)),
      decompose = (\<lambda>t names.
         Node (node_name t) (node_text t)
           (filter (\<lambda>c. node_name c \<notin> set names) (node_children t))),
      find_all = (\<lambda>t name. filter (\<lambda>c. node_name c = name) (node_children t)),
      get_text = (\<lambda>t separator strip. node_text t)\<rparr>"

text \<open>A crawler inside its \<^verbatim>\<open>async with\<close> block, with \<open>k\<close> permits.\<close>

definition entered :: "nat \<Rightarrow> AsyncCrawler" where
  "entered k = \<lparr>semaphore = k, delay = 0, timeout = 30, session = True,
                stats_success = 0, stats_failed = 0\<rparr>"

section \<open>A stand-in for the engine's reading of numbers\<close>

text \<open>
  To run the store on concrete records: the texts of one to eighteen decimal digits,
  read as the integers they write. The engine reads these texts so, and more texts
  besides (signs, spaces around, fractions, exponents).
\<close>

definition digits_reading :: "str \<Rightarrow> int option" where
  "digits_reading s =
     (if s \<noteq> [] \<and> length s \<le> 18 \<and> list_all (\<lambda>c. 48 \<le> c \<and> c \<le> 57) s
      then Some (foldl (\<lambda>n c. 10 * n + int (c - 48)) 0 s)
      else None)"

text \<open>
  The timestamps \<^verbatim>\<open>2026-11-03T13:53:00\<close> and \<^verbatim>\<open>2026-11-03T13:53:01\<close> as
  \<^verbatim>\<open>isoformat()\<close> writes them, and \<^verbatim>\<open>2026-11-03 13:53:02\<close> as \<^verbatim>\<open>CURRENT_TIMESTAMP\<close>
  writes it.
\<close>

definition iso_0 :: str where
  "iso_0 = [50, 48, 50, 54, 45, 49, 49, 45, 48, 51, 84, 49, 51, 58, 53, 51, 58, 48, 48]"

definition iso_1 :: str where
  "iso_1 = [50, 48, 50, 54, 45, 49, 49, 45, 48, 51, 84, 49, 51, 58, 53, 51, 58, 48, 49]"

definition current_timestamp :: str where
  "current_timestamp = [50, 48, 50, 54, 45, 49, 49, 45, 48, 51, 32, 49, 51, 58, 53, 51, 58, 48, 50]"

section \<open>Properties of the Record Mapper\<close>

lemma article_to_record_title:
  "article_to_record fmt a src ''title'' = Some (PyStr (take 200 (title a)))"
  by (simp add: article_to_record_def)

lemma article_to_record_url:
  "article_to_record fmt a src ''url'' = Some (PyStr (url a))"
  by (simp add: article_to_record_def)

lemma article_to_record_content:
  "article_to_record fmt a src ''content'' = Some (PyStr (take 2000 (content a)))"
  by (simp add: article_to_record_def)

lemma article_to_record_source:
  "article_to_record fmt a src ''source'' = Some (PyStr src)"
  by (simp add: article_to_record_def)

lemma article_to_record_fetched_at:
  "article_to_record fmt a src ''fetched_at'' = Some (PyStr (fmt (fetched_at a)))"
  by (simp add: article_to_record_def)

text \<open>
  C5. For every article and source label, the record's content has length exactly 2000
  when the article's content is longer than 2000 and is the article's content when that
  is no longer than 2000; the record's title is the article's title cut to at most 200;
  the record's url is the article's url, whatever its length.
\<close>

theorem C5_truncation_bound:
  "\<exists>t c. article_to_record fmt a src ''title'' = Some (PyStr t)
       \<and> article_to_record fmt a src ''content'' = Some (PyStr c)
       \<and> article_to_record fmt a src ''url'' = Some (PyStr (url a))
       \<and> (2000 < length (content a) \<longrightarrow> length c = 2000)
       \<and> (length (content a) \<le> 2000 \<longrightarrow> c = content a)
       \<and> length t \<le> 200
       \<and> (length (title a) \<le> 200 \<longrightarrow> t = title a)"
  by (simp add: article_to_record_title article_to_record_content article_to_record_url)

theorem C5_truncation_bound_witness:
  "(\<exists>t c. article_to_record (\<lambda>x. []) \<lparr>title = replicate 201 65, url = replicate 3000 66,
              content = replicate 2001 67, fetched_at = 0, status = 200\<rparr> [] ''title'' = Some (PyStr t)
       \<and> article_to_record (\<lambda>x. []) \<lparr>title = replicate 201 65, url = replicate 3000 66,
              content = replicate 2001 67, fetched_at = 0, status = 200\<rparr> [] ''content'' = Some (PyStr c)
       \<and> article_to_record (\<lambda>x. []) \<lparr>title = replicate 201 65, url = replicate 3000 66,
              content = replicate 2001 67, fetched_at = 0, status = 200\<rparr> [] ''url''
            = Some (PyStr (replicate 3000 66))
       \<and> length c = 2000 \<and> length t \<le> 200)
   \<and> (\<exists>t c. article_to_record (\<lambda>x. []) \<lparr>title = [72, 105], url = [104],
              content = replicate 2000 67, fetched_at = 0, status = 200\<rparr> [] ''title'' = Some (PyStr t)
       \<and> article_to_record (\<lambda>x. []) \<lparr>title = [72, 105], url = [104],
              content = replicate 2000 67, fetched_at = 0, status = 200\<rparr> [] ''content'' = Some (PyStr c)
       \<and> c = replicate 2000 67 \<and> t = [72, 105])"
  using C5_truncation_bound [of "\<lambda>x. []" "\<lparr>title = replicate 201 65, url = replicate 3000 66,
              content = replicate 2001 67, fetched_at = 0, status = 200\<rparr>" "[]"]
    C5_truncation_bound [of "\<lambda>x. []" "\<lparr>title = [72, 105], url = [104],
              content = replicate 2000 67, fetched_at = 0, status = 200\<rparr>" "[]"]
  by simp

section \<open>Properties of the Store Gateway\<close>

lemma foldr_max_ge: "(a::int) \<le> foldr max xs a"
  by (induction xs) auto

lemma foldr_max_mem: "x \<in> set xs \<Longrightarrow> (x::int) \<le> foldr max xs a"
  by (induction xs) auto

lemma new_rowid_gt: "r \<in> set (articles db) \<Longrightarrow> r_id r < new_rowid k db"
  using foldr_max_mem [of "r_id r" "map r_id (articles db)" "highest_rowid db"]
  by (simp add: new_rowid_def)

lemma new_rowid_highest: "highest_rowid db < new_rowid k db"
  using foldr_max_ge [of "highest_rowid db" "map r_id (articles db)"]
  by (simp add: new_rowid_def)

lemma new_rowid_pos: "0 \<le> highest_rowid db \<Longrightarrow> 1 \<le> new_rowid k db"
  using new_rowid_highest [of db k] by simp

lemma find_None_url: "find (\<lambda>r. r_url r = u) rs = None \<longleftrightarrow> u \<notin> r_url ` set rs"
  by (auto simp: find_None_iff)

lemma find_Some_url:
  "distinct (map r_url rs) \<Longrightarrow> r \<in> set rs \<Longrightarrow> find (\<lambda>x. r_url x = r_url r) rs = Some r"
  by (induction rs) (auto simp: rev_image_eqI)

lemma filter_url_map_update:
  "(\<And>r. r_url (g r) = r_url r) \<Longrightarrow> distinct (map r_url rs) \<Longrightarrow> old \<in> set rs \<Longrightarrow>
   filter (\<lambda>x. r_url x = r_url old) (map (\<lambda>r. if r_url r = r_url old then g r else r) rs) = [g old]"
  by (induction rs) (auto simp: rev_image_eqI filter_empty_conv)

lemma table_ok_empty: "table_ok empty_database"
  by (simp add: table_ok_def empty_database_def)

lemma bind_value_Inr: "bind_value v = Inr w \<longleftrightarrow> w = v \<and> bindable v"
  by (cases v) auto

lemma bind_value_Inl:
  "bind_value v = Inl e \<Longrightarrow> e = UnicodeEncodeError \<or> e = OverflowError"
  by (cases v) (auto split: if_splits)

lemma bind_parameter_Inr:
  "bind_parameter article name = Inr v \<longleftrightarrow> article name = Some v \<and> bindable v"
  by (auto simp: bind_parameter_def bind_value_Inr split: option.splits)

lemma bind_parameter_Inl:
  "bind_parameter article name = Inl e \<Longrightarrow>
   e = SqliteError \<or> e = UnicodeEncodeError \<or> e = OverflowError"
  by (auto simp: bind_parameter_def split: option.splits dest: bind_value_Inl)

text \<open>The binding succeeds exactly when the five keys are there with values that can be bound.\<close>

lemma bind_parameters_Inr:
  "bind_parameters article = Inr (t, u, c, s, f) \<longleftrightarrow>
     article ''title'' = Some t \<and> bindable t \<and> article ''url'' = Some u \<and> bindable u \<and>
     article ''content'' = Some c \<and> bindable c \<and> article ''source'' = Some s \<and> bindable s \<and>
     article ''fetched_at'' = Some f \<and> bindable f"
proof -
  have "bind_parameters article = Inr (t, u, c, s, f) \<longleftrightarrow>
     bind_parameter article ''title'' = Inr t \<and> bind_parameter article ''url'' = Inr u \<and>
     bind_parameter article ''content'' = Inr c \<and> bind_parameter article ''source'' = Inr s \<and>
     bind_parameter article ''fetched_at'' = Inr f"
    unfolding bind_parameters_def
    by (cases "bind_parameter article ''title''"; cases "bind_parameter article ''url''";
        cases "bind_parameter article ''content''"; cases "bind_parameter article ''source''";
        cases "bind_parameter article ''fetched_at''") simp_all
  then show ?thesis by (simp add: bind_parameter_Inr conj_ac)
qed

lemma bind_parameters_Inl:
  assumes "bind_parameters article = Inl e"
  shows "e = SqliteError \<or> e = UnicodeEncodeError \<or> e = OverflowError"
proof -
  have "\<exists>name. bind_parameter article name = Inl e"
    using assms unfolding bind_parameters_def
    by (cases "bind_parameter article ''title''"; cases "bind_parameter article ''url''";
        cases "bind_parameter article ''content''"; cases "bind_parameter article ''source''";
        cases "bind_parameter article ''fetched_at''") auto
  then show ?thesis using bind_parameter_Inl by blast
qed

lemma upsert_new:
  assumes "bind_parameters article = Inr (PyStr t, PyStr u, c, s, f)"
    "u \<notin> r_url ` set (articles db)"
  shows "upsert numeric k now article db =
     Inr (new_rowid k db,
          db\<lparr>articles := articles db @
                [\<lparr>r_id = new_rowid k db, r_title = t, r_url = u, r_content = sql c,
                  r_source = sql s, r_category = None,
                  r_fetched_at = numeric_affinity numeric f,
                  r_created_at = numeric_affinity numeric (PyStr now)\<rparr>],
             highest_rowid := new_rowid k db\<rparr>)"
  using assms by (simp add: upsert_def find_None_url [symmetric])

lemma upsert_conflict:
  assumes "bind_parameters article = Inr (PyStr t, PyStr u, c, s, f)"
    "distinct (map r_url (articles db))" "old \<in> set (articles db)" "r_url old = u"
  shows "upsert numeric k now article db =
     Inr (r_id old,
          db\<lparr>articles := map (\<lambda>r. if r_url r = u
                                   then r\<lparr>r_title := t, r_content := sql c,
                                          r_fetched_at := numeric_affinity numeric f\<rparr>
                                   else r) (articles db)\<rparr>)"
  using assms find_Some_url [of "articles db" old] by (simp add: upsert_def)

lemma upsert_Inr_bound:
  assumes "upsert numeric k now article db = Inr x"
  shows "\<exists>t u c s f. bind_parameters article = Inr (PyStr t, PyStr u, c, s, f)"
proof (cases "bind_parameters article")
  case (Inl e)
  with assms show ?thesis by (simp add: upsert_def)
next
  case (Inr bound)
  obtain tv uv c s f where b: "bound = (tv, uv, c, s, f)" by (cases bound)
  show ?thesis
  proof (cases tv)
    case PyNone
    with assms Inr b show ?thesis by (simp add: upsert_def)
  next
    case (PyStr t)
    note t = this
    show ?thesis
    proof (cases uv)
      case PyNone
      with assms Inr b t show ?thesis by (simp add: upsert_def)
    next
      case (PyStr u)
      with Inr b t show ?thesis by simp
    qed
  qed
qed

lemma upsert_table_ok:
  assumes "table_ok db" "upsert numeric k now article db = Inr (i, db')"
  shows "table_ok db' \<and> 1 \<le> i"
proof -
  from upsert_Inr_bound [OF assms(2)] obtain t u c s f where
    b: "bind_parameters article = Inr (PyStr t, PyStr u, c, s, f)"
    by blast
  show ?thesis
  proof (cases "u \<in> r_url ` set (articles db)")
    case False
    have gt: "\<forall>r\<in>set (articles db). r_id r < new_rowid k db"
      by (simp add: new_rowid_gt)
    have pos: "1 \<le> new_rowid k db"
      using assms(1) by (simp add: new_rowid_pos table_ok_def)
    from upsert_new [OF b False, of numeric k now] assms(2) have
      i: "i = new_rowid k db" and
      db': "db' = db\<lparr>articles := articles db @
                [\<lparr>r_id = new_rowid k db, r_title = t, r_url = u, r_content = sql c,
                  r_source = sql s, r_category = None,
                  r_fetched_at = numeric_affinity numeric f,
                  r_created_at = numeric_affinity numeric (PyStr now)\<rparr>],
             highest_rowid := new_rowid k db\<rparr>"
      by auto
    show ?thesis
      using assms(1) False gt pos unfolding i db' table_ok_def
      by (auto simp: list_all_iff)
  next
    case True
    then obtain old where old: "old \<in> set (articles db)" "r_url old = u" by auto
    have d: "distinct (map r_url (articles db))" using assms(1) by (simp add: table_ok_def)
    from upsert_conflict [OF b d old, of numeric k now] assms(2) have
      i: "i = r_id old" and
      db': "db' = db\<lparr>articles := map (\<lambda>r. if r_url r = u
                                   then r\<lparr>r_title := t, r_content := sql c,
                                          r_fetched_at := numeric_affinity numeric f\<rparr>
                                   else r) (articles db)\<rparr>"
      by auto
    have m1: "map r_url (articles db') = map r_url (articles db)"
      unfolding db' by (simp add: comp_def if_distrib cong: if_cong)
    have m2: "map r_id (articles db') = map r_id (articles db)"
      unfolding db' by (simp add: comp_def if_distrib cong: if_cong)
    have "list_all (\<lambda>r. 1 \<le> r_id r) (articles db')"
      using assms(1) unfolding db' table_ok_def by (auto simp: list_all_iff)
    moreover have "highest_rowid db' = highest_rowid db" unfolding db' by simp
    moreover have "1 \<le> r_id old" using assms(1) old by (simp add: table_ok_def list_all_iff)
    ultimately show ?thesis
      using assms(1) m1 m2 i by (simp add: table_ok_def)
  qed
qed

text \<open>
  How a call of \<^verbatim>\<open>insert_article\<close> can end: the database is as it was, or the
  statement ran and the method returned its identifier.
\<close>

lemma insert_article_cases:
  assumes "insert_article numeric ev now article db = (res, db')"
  shows "db' = db \<and> (\<forall>i. res \<noteq> Inr (Some i)) \<or>
     (\<exists>k i. ev = Executes k \<and> res = Inr (Some i) \<and> upsert numeric k now article db = Inr (i, db'))"
proof (cases ev)
  case (Executes k)
  show ?thesis
  proof (cases "upsert numeric k now article db")
    case (Inl e)
    with assms Executes show ?thesis by (cases e) (auto simp: insert_article_def)
  next
    case (Inr x)
    with assms Executes show ?thesis by (cases x) (auto simp: insert_article_def)
  qed
next
  case ConnectError
  with assms show ?thesis by (auto simp: insert_article_def)
next
  case PrepareError
  with assms show ?thesis by (auto simp: insert_article_def)
next
  case ExecuteError
  show ?thesis
  proof (cases "bind_parameters article")
    case (Inl e)
    with assms ExecuteError show ?thesis by (cases e) (auto simp: insert_article_def)
  next
    case (Inr bound)
    with assms ExecuteError show ?thesis by (auto simp: insert_article_def)
  qed
next
  case CommitError
  show ?thesis
  proof (cases "bind_parameters article")
    case (Inl e)
    with assms CommitError show ?thesis by (cases e) (auto simp: insert_article_def)
  next
    case (Inr bound)
    with assms CommitError show ?thesis by (auto simp: insert_article_def)
  qed
qed

lemma insert_article_table_ok:
  assumes "table_ok db" "insert_article numeric ev now article db = (res, db')"
  shows "table_ok db'"
  using insert_article_cases [OF assms(2)] assms(1) upsert_table_ok by blast

lemma insert_article_id_pos:
  assumes "table_ok db" "insert_article numeric ev now article db = (Inr (Some i), db')"
  shows "1 \<le> i"
  using insert_article_cases [OF assms(2)] assms(1) upsert_table_ok by blast

lemma upsert_articles:
  assumes "upsert numeric k now article db = Inr (i, db')"
    "bind_parameters article = Inr (PyStr t, PyStr u, c, s, f)"
  shows "(\<exists>new. articles db' = articles db @ [new]) \<or>
     articles db' = map (\<lambda>r. if r_url r = u
                                   then r\<lparr>r_title := t, r_content := sql c,
                                          r_fetched_at := numeric_affinity numeric f\<rparr>
                                   else r) (articles db)"
  using assms by (cases "find (\<lambda>r. r_url r = u) (articles db)") (auto simp: upsert_def)

lemma digits_reading_iso [simp]:
  "digits_reading iso_0 = None" "digits_reading iso_1 = None"
  "digits_reading current_timestamp = None"
  by (simp_all add: digits_reading_def iso_0_def iso_1_def current_timestamp_def)

lemma encodable_simps [simp]:
  "encodable [] = True"
  "encodable (c # s) = ((c < 55296 \<or> 57343 < c) \<and> encodable s)"
  by (simp_all add: encodable_def)

lemma utf8_length_simps [simp]:
  "utf8_length [] = 0"
  "utf8_length (c # s)
     = (if c < 128 then 1 else if c < 2048 then 2 else if c < 65536 then 3 else 4)
       + utf8_length s"
  by (simp_all add: utf8_length_def)

lemma encodable_iso [simp]: "encodable iso_0" "encodable iso_1" "encodable current_timestamp"
  by (simp_all add: iso_0_def iso_1_def current_timestamp_def)

lemma utf8_length_iso [simp]:
  "utf8_length iso_0 = 19" "utf8_length iso_1 = 19" "utf8_length current_timestamp = 19"
  by (simp_all add: iso_0_def iso_1_def current_timestamp_def)

lemma digits_reading_digit [simp]:
  "digits_reading [49] = Some 1" "digits_reading [50] = Some 2"
  by (simp_all add: digits_reading_def)

text \<open>
  C6. Whatever the call of \<^verbatim>\<open>insert_article\<close> does (insert, update on a url that is
  already stored, or fail), every row that was in the table is still there at its
  place with the same \<^verbatim>\<open>id\<close>, \<^verbatim>\<open>url\<close>, \<^verbatim>\<open>source\<close>, \<^verbatim>\<open>category\<close> and
  \<^verbatim>\<open>created_at\<close>: only \<^verbatim>\<open>title\<close>, \<^verbatim>\<open>content\<close> and \<^verbatim>\<open>fetched_at\<close> can differ, and
  a row whose url is not the url of the inserted record does not change at all. No row
  is deleted.
\<close>

theorem C6_upsert_frame:
  assumes "insert_article numeric ev now article db = (res, db')" and "n < length (articles db)"
  shows "n < length (articles db')
     \<and> r_id (articles db' ! n) = r_id (articles db ! n)
     \<and> r_url (articles db' ! n) = r_url (articles db ! n)
     \<and> r_source (articles db' ! n) = r_source (articles db ! n)
     \<and> r_category (articles db' ! n) = r_category (articles db ! n)
     \<and> r_created_at (articles db' ! n) = r_created_at (articles db ! n)
     \<and> (article ''url'' \<noteq> Some (PyStr (r_url (articles db ! n)))
          \<longrightarrow> articles db' ! n = articles db ! n)"
proof -
  from insert_article_cases [OF assms(1)] show ?thesis
  proof
    assume "db' = db \<and> (\<forall>i. res \<noteq> Inr (Some i))"
    with assms(2) show ?thesis by simp
  next
    assume "\<exists>k i. ev = Executes k \<and> res = Inr (Some i)
              \<and> upsert numeric k now article db = Inr (i, db')"
    then obtain k i where u: "upsert numeric k now article db = Inr (i, db')"
      by blast
    from upsert_Inr_bound [OF u] obtain t u' c s f where
      b: "bind_parameters article = Inr (PyStr t, PyStr u', c, s, f)"
      by blast
    then have url: "article ''url'' = Some (PyStr u')"
      by (simp add: bind_parameters_Inr)
    from upsert_articles [OF u b] show ?thesis
    proof
      assume "\<exists>new. articles db' = articles db @ [new]"
      with assms(2) show ?thesis by (auto simp: nth_append)
    next
      assume "articles db' = map (\<lambda>r. if r_url r = u'
                                   then r\<lparr>r_title := t, r_content := sql c,
                                          r_fetched_at := numeric_affinity numeric f\<rparr>
                                   else r) (articles db)"
      with assms(2) url show ?thesis by simp
    qed
  qed
qed

theorem C6_upsert_frame_witness:
  "insert_article digits_reading (Executes 0) current_timestamp
      [''title'' \<mapsto> PyStr [84], ''url'' \<mapsto> PyStr [104], ''content'' \<mapsto> PyStr [98],
       ''source'' \<mapsto> PyStr [120], ''fetched_at'' \<mapsto> PyStr iso_1]
      \<lparr>articles = [\<lparr>r_id = 1, r_title = [79], r_url = [104], r_content = Some [97],
           r_source = Some [113], r_category = None, r_fetched_at = SqlText iso_0,
           r_created_at = SqlText current_timestamp\<rparr>], highest_rowid = 1\<rparr>
    = (Inr (Some 1),
       \<lparr>articles = [\<lparr>r_id = 1, r_title = [84], r_url = [104], r_content = Some [98],
           r_source = Some [113], r_category = None, r_fetched_at = SqlText iso_1,
           r_created_at = SqlText current_timestamp\<rparr>], highest_rowid = 1\<rparr>)
   \<and> r_id (articles \<lparr>articles = [\<lparr>r_id = 1, r_title = [84], r_url = [104], r_content = Some [98],
           r_source = Some [113], r_category = None, r_fetched_at = SqlText iso_1,
           r_created_at = SqlText current_timestamp\<rparr>], highest_rowid = 1\<rparr> ! 0) = 1
   \<and> r_source (articles \<lparr>articles = [\<lparr>r_id = 1, r_title = [84], r_url = [104],
           r_content = Some [98], r_source = Some [113], r_category = None,
           r_fetched_at = SqlText iso_1, r_created_at = SqlText current_timestamp\<rparr>],
           highest_rowid = 1\<rparr> ! 0) = Some [113]"
proof -
  have run: "insert_article digits_reading (Executes 0) current_timestamp
      [''title'' \<mapsto> PyStr [84], ''url'' \<mapsto> PyStr [104], ''content'' \<mapsto> PyStr [98],
       ''source'' \<mapsto> PyStr [120], ''fetched_at'' \<mapsto> PyStr iso_1]
      \<lparr>articles = [\<lparr>r_id = 1, r_title = [79], r_url = [104], r_content = Some [97],
           r_source = Some [113], r_category = None, r_fetched_at = SqlText iso_0,
           r_created_at = SqlText current_timestamp\<rparr>], highest_rowid = 1\<rparr>
    = (Inr (Some 1),
       \<lparr>articles = [\<lparr>r_id = 1, r_title = [84], r_url = [104], r_content = Some [98],
           r_source = Some [113], r_category = None, r_fetched_at = SqlText iso_1,
           r_created_at = SqlText current_timestamp\<rparr>], highest_rowid = 1\<rparr>)"
    by (simp add: insert_article_def upsert_def bind_parameters_def bind_parameter_def)
  show ?thesis
    using run C6_upsert_frame [OF run, of 0] by simp
qed

text \<open>
  C1 (as amended). A record whose five values can be bound, with a title and a url,
  inserted when the engine runs the statement on a table that satisfies the schema: if
  no stored row has its url, a new row holding the record is appended and its
  identifier is returned, which is at least 1 and above every identifier the table
  ever held; if a stored row has its url, the identifier of that row is returned, the
  table keeps its number of rows, and exactly one row has that url afterwards: the old
  row with the title and content of this insert, and with the \<^verbatim>\<open>fetched_at\<close> of this
  insert as the \<^verbatim>\<open>TIMESTAMP\<close> column stores it, which is the text itself unless the
  engine reads the text as a number, and then the number. The table satisfies the schema
  afterwards. The witness inserts one url twice into the empty database, with
  timestamps in ISO format.
\<close>

theorem C1_upsert:
  assumes ok: "table_ok db"
    and b: "article ''title'' = Some (PyStr t)" "article ''url'' = Some (PyStr u)"
      "article ''content'' = Some c" "article ''source'' = Some s"
      "article ''fetched_at'' = Some f"
    and e: "bindable (PyStr t)" "bindable (PyStr u)" "bindable c" "bindable s" "bindable f"
  shows "(u \<notin> r_url ` set (articles db) \<longrightarrow>
            (\<exists>i db'. insert_article numeric (Executes k) now article db = (Inr (Some i), db')
               \<and> 1 \<le> i \<and> highest_rowid db < i \<and> (\<forall>r \<in> set (articles db). r_id r < i)
               \<and> articles db' = articles db @
                    [\<lparr>r_id = i, r_title = t, r_url = u, r_content = sql c, r_source = sql s,
                      r_category = None, r_fetched_at = numeric_affinity numeric f,
                      r_created_at = numeric_affinity numeric (PyStr now)\<rparr>]
               \<and> table_ok db'))
       \<and> (\<forall>old \<in> set (articles db). r_url old = u \<longrightarrow>
            (\<exists>db'. insert_article numeric (Executes k) now article db
                      = (Inr (Some (r_id old)), db')
               \<and> length (articles db') = length (articles db)
               \<and> filter (\<lambda>r. r_url r = u) (articles db') =
                    [old\<lparr>r_title := t, r_content := sql c,
                         r_fetched_at := numeric_affinity numeric f\<rparr>]
               \<and> table_ok db'))
       \<and> (\<forall>x. f = PyStr x \<longrightarrow>
            numeric_affinity numeric f = (case numeric x of Some y \<Rightarrow> SqlNumber y | None \<Rightarrow> SqlText x))
       \<and> (f = PyNone \<longrightarrow> numeric_affinity numeric f = SqlNull)"
proof (intro conjI impI ballI allI)
  have bound: "bind_parameters article = Inr (PyStr t, PyStr u, c, s, f)"
    using b e by (simp add: bind_parameters_Inr)
  {
    assume new: "u \<notin> r_url ` set (articles db)"
    let ?db' = "db\<lparr>articles := articles db @
                [\<lparr>r_id = new_rowid k db, r_title = t, r_url = u, r_content = sql c,
                  r_source = sql s, r_category = None,
                  r_fetched_at = numeric_affinity numeric f,
                  r_created_at = numeric_affinity numeric (PyStr now)\<rparr>],
             highest_rowid := new_rowid k db\<rparr>"
    have u: "upsert numeric k now article db = Inr (new_rowid k db, ?db')"
      using bound new by (rule upsert_new)
    then have "insert_article numeric (Executes k) now article db
                 = (Inr (Some (new_rowid k db)), ?db')"
      by (simp add: insert_article_def)
    moreover have "1 \<le> new_rowid k db" using ok by (simp add: new_rowid_pos table_ok_def)
    moreover have "highest_rowid db < new_rowid k db" by (rule new_rowid_highest)
    moreover have "\<forall>r \<in> set (articles db). r_id r < new_rowid k db"
      by (simp add: new_rowid_gt)
    moreover have "articles ?db' = articles db @
                    [\<lparr>r_id = new_rowid k db, r_title = t, r_url = u, r_content = sql c,
                      r_source = sql s, r_category = None,
                      r_fetched_at = numeric_affinity numeric f,
                      r_created_at = numeric_affinity numeric (PyStr now)\<rparr>]"
      by simp
    moreover have "table_ok ?db'" using upsert_table_ok [OF ok u] by simp
    ultimately show "\<exists>i db'. insert_article numeric (Executes k) now article db
                 = (Inr (Some i), db')
               \<and> 1 \<le> i \<and> highest_rowid db < i \<and> (\<forall>r \<in> set (articles db). r_id r < i)
               \<and> articles db' = articles db @
                    [\<lparr>r_id = i, r_title = t, r_url = u, r_content = sql c, r_source = sql s,
                      r_category = None, r_fetched_at = numeric_affinity numeric f,
                      r_created_at = numeric_affinity numeric (PyStr now)\<rparr>]
               \<and> table_ok db'"
      by blast
  }
  {
    fix old assume old: "old \<in> set (articles db)" "r_url old = u"
    have d: "distinct (map r_url (articles db))" using ok by (simp add: table_ok_def)
    let ?db' = "db\<lparr>articles := map (\<lambda>r. if r_url r = u
                                   then r\<lparr>r_title := t, r_content := sql c,
                                          r_fetched_at := numeric_affinity numeric f\<rparr>
                                   else r) (articles db)\<rparr>"
    have u: "upsert numeric k now article db = Inr (r_id old, ?db')"
      using bound d old by (rule upsert_conflict)
    then have "insert_article numeric (Executes k) now article db
                 = (Inr (Some (r_id old)), ?db')"
      by (simp add: insert_article_def)
    moreover have "length (articles ?db') = length (articles db)" by simp
    moreover have "filter (\<lambda>x. r_url x = r_url old)
          (map (\<lambda>r. if r_url r = r_url old
                    then r\<lparr>r_title := t, r_content := sql c,
                           r_fetched_at := numeric_affinity numeric f\<rparr> else r)
            (articles db)) = [old\<lparr>r_title := t, r_content := sql c,
                                  r_fetched_at := numeric_affinity numeric f\<rparr>]"
      using d old(1) by (intro filter_url_map_update) simp_all
    then have "filter (\<lambda>r. r_url r = u) (articles ?db') =
                    [old\<lparr>r_title := t, r_content := sql c,
                         r_fetched_at := numeric_affinity numeric f\<rparr>]"
      using old(2) by simp
    moreover have "table_ok ?db'" using upsert_table_ok [OF ok u] by simp
    ultimately show "\<exists>db'. insert_article numeric (Executes k) now article db
                      = (Inr (Some (r_id old)), db')
               \<and> length (articles db') = length (articles db)
               \<and> filter (\<lambda>r. r_url r = u) (articles db') =
                    [old\<lparr>r_title := t, r_content := sql c,
                         r_fetched_at := numeric_affinity numeric f\<rparr>]
               \<and> table_ok db'"
      by blast
  }
  {
    fix x assume "f = PyStr x"
    then show "numeric_affinity numeric f
                 = (case numeric x of Some y \<Rightarrow> SqlNumber y | None \<Rightarrow> SqlText x)"
      by simp
  }
  {
    assume "f = PyNone"
    then show "numeric_affinity numeric f = SqlNull" by simp
  }
qed

theorem C1_upsert_witness:
  "table_ok (empty_database :: int database)
   \<and> (\<exists>i db'. insert_article digits_reading (Executes 0) current_timestamp
          [''title'' \<mapsto> PyStr [79], ''url'' \<mapsto> PyStr [104], ''content'' \<mapsto> PyStr [97],
           ''source'' \<mapsto> PyStr [113], ''fetched_at'' \<mapsto> PyStr iso_0] empty_database
          = (Inr (Some i), db')
        \<and> 1 \<le> i
        \<and> articles db' =
             [\<lparr>r_id = i, r_title = [79], r_url = [104], r_content = Some [97],
               r_source = Some [113], r_category = None, r_fetched_at = SqlText iso_0,
               r_created_at = SqlText current_timestamp\<rparr>])
   \<and> table_ok \<lparr>articles = [\<lparr>r_id = 1, r_title = [79], r_url = [104], r_content = Some [97],
               r_source = Some [113], r_category = None, r_fetched_at = SqlText iso_0,
               r_created_at = SqlText current_timestamp\<rparr>], highest_rowid = 1 :: int\<rparr>
   \<and> (\<exists>db'. insert_article digits_reading (Executes 0) current_timestamp
          [''title'' \<mapsto> PyStr [84], ''url'' \<mapsto> PyStr [104], ''content'' \<mapsto> PyStr [98],
           ''source'' \<mapsto> PyStr [113], ''fetched_at'' \<mapsto> PyStr iso_1]
          \<lparr>articles = [\<lparr>r_id = 1, r_title = [79], r_url = [104], r_content = Some [97],
               r_source = Some [113], r_category = None, r_fetched_at = SqlText iso_0,
               r_created_at = SqlText current_timestamp\<rparr>], highest_rowid = 1\<rparr>
          = (Inr (Some 1), db')
        \<and> length (articles db') = 1
        \<and> filter (\<lambda>r. r_url r = [104]) (articles db') =
             [\<lparr>r_id = 1, r_title = [84], r_url = [104], r_content = Some [98],
               r_source = Some [113], r_category = None, r_fetched_at = SqlText iso_1,
               r_created_at = SqlText current_timestamp\<rparr>])"
proof -
  have ok0: "table_ok (empty_database :: int database)"
    by (simp add: table_ok_def empty_database_def)
  have ok1: "table_ok \<lparr>articles = [\<lparr>r_id = 1, r_title = [79], r_url = [104],
               r_content = Some [97], r_source = Some [113], r_category = None,
               r_fetched_at = SqlText iso_0,
               r_created_at = SqlText current_timestamp\<rparr>], highest_rowid = 1 :: int\<rparr>"
    by (simp add: table_ok_def)
  have e: "bindable (PyStr [79])" "bindable (PyStr [84])" "bindable (PyStr [104])"
    "bindable (PyStr [97])"
    "bindable (PyStr [98])" "bindable (PyStr [113])" "bindable (PyStr iso_0)"
    "bindable (PyStr iso_1)"
    by simp_all
  show ?thesis
    using ok0 ok1
      C1_upsert [OF ok0, of "[''title'' \<mapsto> PyStr [79], ''url'' \<mapsto> PyStr [104],
           ''content'' \<mapsto> PyStr [97], ''source'' \<mapsto> PyStr [113], ''fetched_at'' \<mapsto> PyStr iso_0]"
           "[79]" "[104]" "PyStr [97]" "PyStr [113]" "PyStr iso_0" digits_reading 0
           current_timestamp]
      C1_upsert [OF ok1, of "[''title'' \<mapsto> PyStr [84], ''url'' \<mapsto> PyStr [104],
           ''content'' \<mapsto> PyStr [98], ''source'' \<mapsto> PyStr [113], ''fetched_at'' \<mapsto> PyStr iso_1]"
           "[84]" "[104]" "PyStr [98]" "PyStr [113]" "PyStr iso_1" digits_reading 0
           current_timestamp]
      e
    by (auto simp: empty_database_def)
qed

text \<open>
  C1 as stated fails where the \<^verbatim>\<open>fetched_at\<close> of the second insert is a text that the
  engine reads as a number: after the inserts with \<^verbatim>\<open>fetched_at\<close> \<^verbatim>\<open>'1'\<close> and then
  \<^verbatim>\<open>'2'\<close> the stored row holds the integer 2, not the text of the second insert.
\<close>

theorem C1_numeric_fetched_at:
  "insert_article digits_reading (Executes 0) current_timestamp
      [''title'' \<mapsto> PyStr [79], ''url'' \<mapsto> PyStr [104], ''content'' \<mapsto> PyStr [97],
       ''source'' \<mapsto> PyStr [113], ''fetched_at'' \<mapsto> PyStr [49]] empty_database
    = (Inr (Some 1),
       \<lparr>articles = [\<lparr>r_id = 1, r_title = [79], r_url = [104], r_content = Some [97],
           r_source = Some [113], r_category = None, r_fetched_at = SqlNumber 1,
           r_created_at = SqlText current_timestamp\<rparr>], highest_rowid = 1\<rparr>)
   \<and> insert_article digits_reading (Executes 0) current_timestamp
      [''title'' \<mapsto> PyStr [84], ''url'' \<mapsto> PyStr [104], ''content'' \<mapsto> PyStr [98],
       ''source'' \<mapsto> PyStr [113], ''fetched_at'' \<mapsto> PyStr [50]]
      \<lparr>articles = [\<lparr>r_id = 1, r_title = [79], r_url = [104], r_content = Some [97],
           r_source = Some [113], r_category = None, r_fetched_at = SqlNumber 1,
           r_created_at = SqlText current_timestamp\<rparr>], highest_rowid = 1\<rparr>
    = (Inr (Some 1),
       \<lparr>articles = [\<lparr>r_id = 1, r_title = [84], r_url = [104], r_content = Some [98],
           r_source = Some [113], r_category = None, r_fetched_at = SqlNumber 2,
           r_created_at = SqlText current_timestamp\<rparr>], highest_rowid = 1\<rparr>)
   \<and> (SqlNumber 2 :: int sqlval) \<noteq> SqlText [50]"
  by (simp add: insert_article_def upsert_def bind_parameters_def bind_parameter_def
      empty_database_def new_rowid_def)

section \<open>Properties of the Fetch Unit\<close>

text \<open>
  The loop of \<^verbatim>\<open>_extract_title\<close>: the placeholder when no selector of the list finds an
  element; otherwise the text of the element that the first selector to find one finds.
\<close>

lemma extract_title_loop_none:
  "(\<forall>selector \<in> set selectors. select_one lib soup selector = None) \<Longrightarrow>
   extract_title_loop lib soup selectors = no_title"
  by (induction selectors) simp_all

lemma extract_title_loop_first:
  "(\<forall>s \<in> set before. select_one lib soup s = None) \<Longrightarrow>
   select_one lib soup selector = Some tag \<Longrightarrow>
   extract_title_loop lib soup (before @ selector # after) = take 200 (get_text lib tag [] True)"
  by (induction before) simp_all

lemma length_no_title: "length no_title = 3"
  by (simp add: no_title_def)

lemma length_extract_title_loop: "length (extract_title_loop lib soup selectors) \<le> 200"
  by (induction selectors) (auto simp: no_title_def split: option.splits)

lemma length_extract_title: "length (extract_title lib soup) \<le> 200"
  unfolding extract_title_def by (rule length_extract_title_loop)

lemma length_extract_content_loop: "length (extract_content_loop lib soup selectors) \<le> 10000"
  by (induction selectors) (auto split: option.splits list.splits)

lemma length_extract_content: "length (extract_content lib soup) \<le> 10000"
  unfolding extract_content_def by (rule length_extract_content_loop)

lemma fetch_one_200:
  assumes "fetch_one lib self target reaction now = (Some a, self')" "status a = 200"
  shows "\<exists>html soup. session self \<and> reaction = Response 200 (Inr html)
     \<and> BeautifulSoup lib (if 1000000 < length html then take 1000000 html else html) = Inr soup
     \<and> a = \<lparr>title = extract_title lib soup, url = target, content = extract_content lib soup,
            fetched_at = now, status = 200\<rparr>
     \<and> self' = self\<lparr>stats_success := stats_success self + 1\<rparr>"
proof (cases "session self")
  case False
  with assms show ?thesis by (simp add: fetch_one_def)
next
  case True
  note s = this
  show ?thesis
  proof (cases reaction)
    case (GetRaises e)
    with assms s show ?thesis by (cases e) (simp_all add: fetch_one_def)
  next
    case (Response st body)
    note r = this
    show ?thesis
    proof (cases "st = 200")
      case False
      with assms s r show ?thesis by (auto simp: fetch_one_def)
    next
      case True
      note st = this
      show ?thesis
      proof (cases body)
        case (Inl e)
        with assms s r st show ?thesis by (cases e) (simp_all add: fetch_one_def)
      next
        case (Inr html)
        note h = this
        show ?thesis
        proof (cases "BeautifulSoup lib (if 1000000 < length html then take 1000000 html else html)")
          case (Inl e)
          with assms s r st h show ?thesis by (cases e) (simp_all add: fetch_one_def)
        next
          case (Inr soup)
          with assms s r st h show ?thesis by (auto simp: fetch_one_def)
        qed
      qed
    qed
  qed
qed

lemma handler_eq: "handler e self = (None, self\<lparr>stats_failed := stats_failed self + 1\<rparr>)"
  by (cases e) simp_all

text \<open>
  C10 (as amended). Every article that \<^verbatim>\<open>fetch_one\<close> returns with status 200 has a
  title of length at most 200 and a content of length at most 10000, and comes from a
  response of status 200 whose body, cut to the cap, the parser read as a document
  \<open>soup\<close>. When no selector of \<open>title_selectors\<close> finds an element of \<open>soup\<close>, the
  title is the placeholder. When one does, the title is the stripped text, cut to 200,
  of the element found by the first selector of the list that finds one; that text can
  be empty.
\<close>

theorem C10_extraction_bounds:
  assumes "fetch_one lib self target reaction now = (Some a, self')" and "status a = 200"
  shows "length (title a) \<le> 200 \<and> length (content a) \<le> 10000
     \<and> (\<exists>html soup.
           reaction = Response 200 (Inr html)
         \<and> BeautifulSoup lib (if 1000000 < length html then take 1000000 html else html)
               = Inr soup
         \<and> ((\<forall>selector \<in> set title_selectors. select_one lib soup selector = None)
               \<longrightarrow> title a = no_title)
         \<and> (\<forall>before selector after tag.
                 title_selectors = before @ selector # after
               \<and> (\<forall>s \<in> set before. select_one lib soup s = None)
               \<and> select_one lib soup selector = Some tag
               \<longrightarrow> title a = take 200 (get_text lib tag [] True)))"
proof -
  from fetch_one_200 [OF assms] obtain html soup where
    r: "reaction = Response 200 (Inr html)"
    and p: "BeautifulSoup lib (if 1000000 < length html then take 1000000 html else html)
              = Inr soup"
    and a: "a = \<lparr>title = extract_title lib soup, url = target,
                  content = extract_content lib soup, fetched_at = now, status = 200\<rparr>"
    by blast
  have t: "title a = extract_title_loop lib soup title_selectors"
    and c: "content a = extract_content lib soup"
    by (simp_all add: a extract_title_def)
  have none: "(\<forall>selector \<in> set title_selectors. select_one lib soup selector = None)
               \<longrightarrow> title a = no_title"
    unfolding t using extract_title_loop_none [of title_selectors lib soup] by blast
  have first: "\<forall>before selector after tag.
                 title_selectors = before @ selector # after
               \<and> (\<forall>s \<in> set before. select_one lib soup s = None)
               \<and> select_one lib soup selector = Some tag
               \<longrightarrow> title a = take 200 (get_text lib tag [] True)"
  proof (intro allI impI)
    fix before selector after tag
    assume h: "title_selectors = before @ selector # after
               \<and> (\<forall>s \<in> set before. select_one lib soup s = None)
               \<and> select_one lib soup selector = Some tag"
    then have "extract_title_loop lib soup (before @ selector # after)
                 = take 200 (get_text lib tag [] True)"
      by (intro extract_title_loop_first) simp_all
    with h show "title a = take 200 (get_text lib tag [] True)"
      unfolding t by simp
  qed
  have "length (title a) \<le> 200"
    unfolding t by (rule length_extract_title_loop)
  moreover have "length (content a) \<le> 10000"
    unfolding c by (rule length_extract_content)
  moreover have "\<exists>html soup.
           reaction = Response 200 (Inr html)
         \<and> BeautifulSoup lib (if 1000000 < length html then take 1000000 html else html)
               = Inr soup
         \<and> ((\<forall>selector \<in> set title_selectors. select_one lib soup selector = None)
               \<longrightarrow> title a = no_title)
         \<and> (\<forall>before selector after tag.
                 title_selectors = before @ selector # after
               \<and> (\<forall>s \<in> set before. select_one lib soup s = None)
               \<and> select_one lib soup selector = Some tag
               \<longrightarrow> title a = take 200 (get_text lib tag [] True))"
    using r p none first by blast
  ultimately show ?thesis by (intro conjI)
qed

text \<open>
  C10 as stated fails: for a document whose \<^verbatim>\<open>h1\<close> element has no text (the page
  \<^verbatim>\<open><h1></h1>\<close>), the selector \<^verbatim>\<open>h1\<close> finds the element and the article returned with
  status 200 has the empty title.
\<close>

theorem C10_empty_title:
  "fetch_one (document_lib (Node ''[document]'' [] [Node ''h1'' [] []])) (entered 1) [104]
      (Response 200 (Inr [60, 104, 49, 62, 60, 47, 104, 49, 62])) 0
   = (Some \<lparr>title = [], url = [104], content = [], fetched_at = 0, status = 200\<rparr>,
      (entered 1)\<lparr>stats_success := 1\<rparr>)"
  by (simp add: fetch_one_def document_lib_def entered_def extract_title_def title_selectors_def
      extract_content_def)

theorem C10_extraction_bounds_witness:
  "fetch_one (document_lib (Node ''[document]'' [] [Node ''title'' [72, 105] []])) (entered 1) [104]
      (Response 200 (Inr [60])) 0
   = (Some \<lparr>title = [72, 105], url = [104], content = [], fetched_at = 0, status = 200\<rparr>,
      (entered 1)\<lparr>stats_success := 1\<rparr>)
   \<and> title_selectors
       = [''h1.article-title'', ''h1.entry-title'', ''h1.post-title'', ''h1'']
         @ ''title'' # [''.article-header h1'']
   \<and> select_one (document_lib (Node ''[document]'' [] [Node ''title'' [72, 105] []]))
         (Node ''[document]'' [] [Node ''title'' [72, 105] []]) ''title''
       = Some (Node ''title'' [72, 105] [])
   \<and> fetch_one (document_lib (Node ''[document]'' [] [])) (entered 1) [104]
      (Response 200 (Inr [60])) 0
   = (Some \<lparr>title = no_title, url = [104], content = [], fetched_at = 0, status = 200\<rparr>,
      (entered 1)\<lparr>stats_success := 1\<rparr>)"
proof -
  have run: "fetch_one (document_lib (Node ''[document]'' [] [Node ''title'' [72, 105] []])) (entered 1) [104]
      (Response 200 (Inr [60])) 0
   = (Some \<lparr>title = [72, 105], url = [104], content = [], fetched_at = 0, status = 200\<rparr>,
      (entered 1)\<lparr>stats_success := 1\<rparr>)"
    by (simp add: fetch_one_def document_lib_def entered_def extract_title_def
        title_selectors_def extract_content_def)
  have run': "fetch_one (document_lib (Node ''[document]'' [] [])) (entered 1) [104]
      (Response 200 (Inr [60])) 0
   = (Some \<lparr>title = no_title, url = [104], content = [], fetched_at = 0, status = 200\<rparr>,
      (entered 1)\<lparr>stats_success := 1\<rparr>)"
    by (simp add: fetch_one_def document_lib_def entered_def extract_title_def
        title_selectors_def extract_content_def)
  show ?thesis
    using run run' C10_extraction_bounds [OF run] C10_extraction_bounds [OF run']
    by (simp add: title_selectors_def document_lib_def)
qed

text \<open>
  Every execution of \<^verbatim>\<open>fetch_one\<close> ends in one of its three results: no outcome, an
  article of a status other than 200 with empty title and content, or an article of
  status 200.
\<close>

lemma fetch_one_shapes:
  "fetch_one lib self target reaction now
      = (None, self\<lparr>stats_failed := stats_failed self + 1\<rparr>)
   \<or> (\<exists>st. st \<noteq> 200 \<and> fetch_one lib self target reaction now
          = (Some \<lparr>title = [], url = target, content = [], fetched_at = now, status = st\<rparr>,
             self\<lparr>stats_failed := stats_failed self + 1\<rparr>))
   \<or> (\<exists>soup. fetch_one lib self target reaction now
          = (Some \<lparr>title = extract_title lib soup, url = target,
                    content = extract_content lib soup, fetched_at = now, status = 200\<rparr>,
             self\<lparr>stats_success := stats_success self + 1\<rparr>))"
proof (cases "session self")
  case False
  then show ?thesis by (simp add: fetch_one_def handler_eq)
next
  case True
  note s = this
  show ?thesis
  proof (cases reaction)
    case (GetRaises e)
    with s show ?thesis by (simp add: fetch_one_def handler_eq)
  next
    case (Response st body)
    note r = this
    show ?thesis
    proof (cases "st = 200")
      case False
      with s r show ?thesis by (simp add: fetch_one_def)
    next
      case True
      note st = this
      show ?thesis
      proof (cases body)
        case (Inl e)
        with s r st show ?thesis by (simp add: fetch_one_def handler_eq)
      next
        case (Inr html)
        note h = this
        show ?thesis
        proof (cases "BeautifulSoup lib (if 1000000 < length html then take 1000000 html else html)")
          case (Inl e)
          with s r st h show ?thesis by (simp add: fetch_one_def handler_eq)
        next
          case (Inr soup)
          with s r st h have "fetch_one lib self target reaction now
              = (Some \<lparr>title = extract_title lib soup, url = target,
                    content = extract_content lib soup, fetched_at = now, status = 200\<rparr>,
                 self\<lparr>stats_success := stats_success self + 1\<rparr>)"
            by (simp add: fetch_one_def)
          then show ?thesis by blast
        qed
      qed
    qed
  qed
qed

text \<open>
  C2. With a session, for every url: when the request raises (a timeout, a connection
  error, any exception), and when reading the body raises, \<^verbatim>\<open>fetch_one\<close> returns
  \<^verbatim>\<open>None\<close> and counts a failure; when a response arrives with a status other than 200 it
  returns an article with that status, the url, and empty title and content, and counts
  a failure; the two results differ. Whatever the network does, \<^verbatim>\<open>fetch_one\<close> ends
  with one of its three results: it has no way to raise.
\<close>

theorem C2_fetch_failures:
  assumes "session self"
  shows "fetch_one lib self target (GetRaises e) now
           = (None, self\<lparr>stats_failed := stats_failed self + 1\<rparr>)
     \<and> fetch_one lib self target (Response 200 (Inl e)) now
           = (None, self\<lparr>stats_failed := stats_failed self + 1\<rparr>)
     \<and> (st \<noteq> 200 \<longrightarrow>
          fetch_one lib self target (Response st body) now
            = (Some \<lparr>title = [], url = target, content = [], fetched_at = now, status = st\<rparr>,
               self\<lparr>stats_failed := stats_failed self + 1\<rparr>)
          \<and> fst (fetch_one lib self target (GetRaises e) now)
                \<noteq> fst (fetch_one lib self target (Response st body) now))
     \<and> (\<forall>reaction.
          fst (fetch_one lib self target reaction now) = None
          \<or> (\<exists>a. fst (fetch_one lib self target reaction now) = Some a \<and> url a = target
                 \<and> (status a \<noteq> 200 \<longrightarrow> title a = [] \<and> content a = [])))"
proof -
  have "\<forall>reaction.
          fst (fetch_one lib self target reaction now) = None
          \<or> (\<exists>a. fst (fetch_one lib self target reaction now) = Some a \<and> url a = target
                 \<and> (status a \<noteq> 200 \<longrightarrow> title a = [] \<and> content a = []))"
  proof
    fix reaction
    from fetch_one_shapes [of lib self target reaction now]
    show "fst (fetch_one lib self target reaction now) = None
          \<or> (\<exists>a. fst (fetch_one lib self target reaction now) = Some a \<and> url a = target
                 \<and> (status a \<noteq> 200 \<longrightarrow> title a = [] \<and> content a = []))"
      by (elim disjE exE conjE) simp_all
  qed
  with assms show ?thesis by (simp add: fetch_one_def handler_eq)
qed

theorem C2_fetch_failures_witness:
  "session (entered 1)
   \<and> fetch_one (document_lib (Node [] [] [])) (entered 1) [104] (GetRaises TimeoutError) 0
       = (None, (entered 1)\<lparr>stats_failed := 1\<rparr>)
   \<and> fetch_one (document_lib (Node [] [] [])) (entered 1) [104] (Response 404 (Inr [60])) 0
       = (Some \<lparr>title = [], url = [104], content = [], fetched_at = 0, status = 404\<rparr>,
          (entered 1)\<lparr>stats_failed := 1\<rparr>)
   \<and> fst (fetch_one (document_lib (Node [] [] [])) (entered 1) [104] (GetRaises TimeoutError) 0)
       \<noteq> fst (fetch_one (document_lib (Node [] [] [])) (entered 1) [104]
                 (Response 404 (Inr [60])) 0)"
proof -
  have s: "session (entered 1)" by (simp add: entered_def)
  show ?thesis
    using s C2_fetch_failures [OF s, of "document_lib (Node [] [] [])" "[104]" TimeoutError 0 404 "Inr [60]"]
    by (simp add: entered_def)
qed

lemma extract_title_loop_parser:
  "extract_title_loop (lib\<lparr>BeautifulSoup := parser\<rparr>) soup selectors
     = extract_title_loop lib soup selectors"
  by (induction selectors) (simp_all split: option.splits)

lemma extract_content_loop_parser:
  "extract_content_loop (lib\<lparr>BeautifulSoup := parser\<rparr>) soup selectors
     = extract_content_loop lib soup selectors"
  by (induction selectors) (simp_all split: option.splits list.splits)

lemma extract_title_parser:
  "extract_title (lib\<lparr>BeautifulSoup := parser\<rparr>) soup = extract_title lib soup"
  unfolding extract_title_def by (rule extract_title_loop_parser)

lemma extract_content_parser:
  "extract_content (lib\<lparr>BeautifulSoup := parser\<rparr>) soup = extract_content lib soup"
  unfolding extract_content_def extract_content_loop_parser
  by (simp del: extract_content_loop.simps)

lemma cap_length: "length (if 1000000 < length html then take 1000000 html else (html :: str)) \<le> 1000000"
  by simp

lemma fetch_one_parser:
  assumes "\<And>t. length t \<le> 1000000 \<Longrightarrow> parser t = BeautifulSoup lib t"
  shows "fetch_one (lib\<lparr>BeautifulSoup := parser\<rparr>) self target reaction now
           = fetch_one lib self target reaction now"
proof (cases reaction)
  case (GetRaises e)
  then show ?thesis by (simp add: fetch_one_def)
next
  case (Response st body)
  show ?thesis
  proof (cases body)
    case (Inl e)
    with Response show ?thesis by (simp add: fetch_one_def)
  next
    case (Inr html)
    have "parser (if 1000000 < length html then take 1000000 html else html)
            = BeautifulSoup lib (if 1000000 < length html then take 1000000 html else html)"
      by (rule assms) (rule cap_length)
    with Response Inr show ?thesis
      by (simp add: fetch_one_def extract_title_parser extract_content_parser split: sum.splits)
  qed
qed

text \<open>
  C9. The parser, and so the extraction, sees the body only cut to 1000000 code points:
  a parser that agrees with the library's on every text of length at most 1000000 gives
  the same result of \<^verbatim>\<open>fetch_one\<close> for every reaction; a body is treated as its first
  1000000 code points are; and when the parser accepts these, the result is the article
  with status 200 and a counted success, whatever the length of the body.
\<close>

theorem C9_truncation_before_extraction:
  "((\<forall>t. length t \<le> 1000000 \<longrightarrow> parser t = BeautifulSoup lib t) \<longrightarrow>
      fetch_one (lib\<lparr>BeautifulSoup := parser\<rparr>) self target reaction now
        = fetch_one lib self target reaction now)
   \<and> fetch_one lib self target (Response 200 (Inr html)) now
        = fetch_one lib self target (Response 200 (Inr (take 1000000 html))) now
   \<and> (session self \<and> BeautifulSoup lib (take 1000000 html) = Inr soup \<longrightarrow>
        fetch_one lib self target (Response 200 (Inr html)) now
          = (Some \<lparr>title = extract_title lib soup, url = target,
                    content = extract_content lib soup, fetched_at = now, status = 200\<rparr>,
             self\<lparr>stats_success := stats_success self + 1\<rparr>))"
proof (intro conjI impI)
  assume "\<forall>t. length t \<le> 1000000 \<longrightarrow> parser t = BeautifulSoup lib t"
  then show "fetch_one (lib\<lparr>BeautifulSoup := parser\<rparr>) self target reaction now
        = fetch_one lib self target reaction now"
    by (intro fetch_one_parser) simp
next
  show "fetch_one lib self target (Response 200 (Inr html)) now
        = fetch_one lib self target (Response 200 (Inr (take 1000000 html))) now"
    by (cases "1000000 < length html") (simp_all add: fetch_one_def)
next
  assume "session self \<and> BeautifulSoup lib (take 1000000 html) = Inr soup"
  then show "fetch_one lib self target (Response 200 (Inr html)) now
          = (Some \<lparr>title = extract_title lib soup, url = target,
                    content = extract_content lib soup, fetched_at = now, status = 200\<rparr>,
             self\<lparr>stats_success := stats_success self + 1\<rparr>)"
    by (cases "1000000 < length html") (simp_all add: fetch_one_def)
qed

theorem C9_truncation_before_extraction_witness:
  "fetch_one
      ((document_lib (Node ''[document]'' [] [Node ''title'' [72, 105] []]))
         \<lparr>BeautifulSoup := \<lambda>t. if length t \<le> 1000000
                               then Inr (Node ''[document]'' [] [Node ''title'' [72, 105] []])
                               else Inl OtherException\<rparr>)
      (entered 1) [104] (Response 200 (Inr (replicate 1000001 32))) 0
   = (Some \<lparr>title = [72, 105], url = [104], content = [], fetched_at = 0, status = 200\<rparr>,
      (entered 1)\<lparr>stats_success := 1\<rparr>)"
proof -
  have p: "\<forall>t. length t \<le> 1000000 \<longrightarrow>
      (if length t \<le> 1000000
       then Inr (Node ''[document]'' [] [Node ''title'' [72, 105] []])
       else Inl OtherException) =
      BeautifulSoup (document_lib (Node ''[document]'' [] [Node ''title'' [72, 105] []])) t"
    by (simp add: document_lib_def)
  have s: "session (entered 1) \<and>
      BeautifulSoup (document_lib (Node ''[document]'' [] [Node ''title'' [72, 105] []]))
        (take 1000000 (replicate 1000001 32))
      = Inr (Node ''[document]'' [] [Node ''title'' [72, 105] []])"
    by (simp add: document_lib_def entered_def)
  have x: "extract_title (document_lib (Node ''[document]'' [] [Node ''title'' [72, 105] []]))
             (Node ''[document]'' [] [Node ''title'' [72, 105] []]) = [72, 105]"
    "extract_content (document_lib (Node ''[document]'' [] [Node ''title'' [72, 105] []]))
             (Node ''[document]'' [] [Node ''title'' [72, 105] []]) = []"
    by (simp_all add: document_lib_def extract_title_def title_selectors_def extract_content_def)
  note th = C9_truncation_before_extraction
        [of "\<lambda>t. if length t \<le> 1000000
                               then Inr (Node ''[document]'' [] [Node ''title'' [72, 105] []])
                               else Inl OtherException"
            "document_lib (Node ''[document]'' [] [Node ''title'' [72, 105] []])"
            "entered 1" "[104]" "Response 200 (Inr (replicate 1000001 32))" 0
            "replicate 1000001 32" "Node ''[document]'' [] [Node ''title'' [72, 105] []]"]
  from th have a: "fetch_one
      ((document_lib (Node ''[document]'' [] [Node ''title'' [72, 105] []]))
         \<lparr>BeautifulSoup := \<lambda>t. if length t \<le> 1000000
                               then Inr (Node ''[document]'' [] [Node ''title'' [72, 105] []])
                               else Inl OtherException\<rparr>)
      (entered 1) [104] (Response 200 (Inr (replicate 1000001 32))) 0
    = fetch_one (document_lib (Node ''[document]'' [] [Node ''title'' [72, 105] []]))
      (entered 1) [104] (Response 200 (Inr (replicate 1000001 32))) 0"
    using p by blast
  from th have b: "fetch_one (document_lib (Node ''[document]'' [] [Node ''title'' [72, 105] []]))
      (entered 1) [104] (Response 200 (Inr (replicate 1000001 32))) 0
    = (Some \<lparr>title = extract_title (document_lib (Node ''[document]'' [] [Node ''title'' [72, 105] []]))
                (Node ''[document]'' [] [Node ''title'' [72, 105] []]),
              url = [104],
              content = extract_content (document_lib (Node ''[document]'' [] [Node ''title'' [72, 105] []]))
                (Node ''[document]'' [] [Node ''title'' [72, 105] []]),
              fetched_at = 0, status = 200\<rparr>,
       (entered 1)\<lparr>stats_success := stats_success (entered 1) + 1\<rparr>)"
    using s by blast
  show ?thesis
    unfolding a b x by (simp add: entered_def)
qed

section \<open>Properties of the Batch Fetcher\<close>

lemma fetch_one_session:
  "session (snd (fetch_one lib self target reaction now)) = session self"
  by (simp add: fetch_one_def handler_eq split: reaction.splits sum.splits)

lemma fetch_one_semaphore:
  "semaphore (snd (fetch_one lib self target reaction now)) = semaphore self"
  by (simp add: fetch_one_def handler_eq split: reaction.splits sum.splits)

lemma fetch_one_result_session:
  "session self = session self' \<Longrightarrow>
   fst (fetch_one lib self target reaction now) = fst (fetch_one lib self' target reaction now)"
  by (simp add: fetch_one_def handler_eq split: reaction.splits sum.splits)

text \<open>
  The gathered results: the result of the task at position \<open>j\<close> depends on nothing but
  its own url and the reaction to its own request.
\<close>

lemma gather_results:
  "fst (gather lib world self i urls) =
     map (\<lambda>j. Inr (fst (fetch_one lib self (urls ! j) (fst (world (i + j))) (snd (world (i + j))))))
       [0..<length urls]"
proof (induction urls arbitrary: self i)
  case Nil
  show ?case by simp
next
  case (Cons target targets)
  obtain r self' where f: "fetch_one lib self target (fst (world i)) (snd (world i)) = (r, self')"
    by (cases "fetch_one lib self target (fst (world i)) (snd (world i))")
  obtain rs self'' where g: "gather lib world self' (Suc i) targets = (rs, self'')"
    by (cases "gather lib world self' (Suc i) targets")
  have s: "session self' = session self"
    using fetch_one_session [of lib self target "fst (world i)" "snd (world i)"] f by simp
  have "rs = map (\<lambda>j. Inr (fst (fetch_one lib self' (targets ! j) (fst (world (Suc i + j)))
                (snd (world (Suc i + j)))))) [0..<length targets]"
    using Cons.IH [of self' "Suc i"] g by simp
  also have "\<dots> = map (\<lambda>j. Inr (fst (fetch_one lib self (targets ! j) (fst (world (Suc i + j)))
                (snd (world (Suc i + j)))))) [0..<length targets]"
    by (simp add: fetch_one_result_session [OF s])
  finally have rs: "rs = map (\<lambda>j. Inr (fst (fetch_one lib self (targets ! j)
                (fst (world (Suc i + j))) (snd (world (Suc i + j)))))) [0..<length targets]" .
  have "fst (gather lib world self i (target # targets)) = Inr r # rs"
    using f g by simp
  also have "\<dots> = map (\<lambda>j. Inr (fst (fetch_one lib self ((target # targets) ! j)
                (fst (world (i + j))) (snd (world (i + j)))))) [0..<length (target # targets)]"
    using f unfolding rs by (simp add: map_upt_Suc del: upt_Suc)
  finally show ?case .
qed

text \<open>What the filter keeps of one result.\<close>

lemma filter_results_concat:
  "filter_results rs =
     concat (map (\<lambda>r. case r of Inr (Some a) \<Rightarrow> if status a = 200 then [a] else [] | _ \<Rightarrow> []) rs)"
  by (induction rs rule: filter_results.induct) simp_all

lemma filter_results_append:
  "filter_results (rs @ rs') = filter_results rs @ filter_results rs'"
  by (simp add: filter_results_concat)

lemma filter_results_status: "a \<in> set (filter_results rs) \<Longrightarrow> status a = 200"
  by (induction rs rule: filter_results.induct) (auto split: if_splits)

lemma filter_results_set:
  "set (filter_results rs) = {a. Inr (Some a) \<in> set rs \<and> status a = 200}"
  by (induction rs rule: filter_results.induct) auto

text \<open>
  C3. With a gate of at least one permit, for every list of urls and every behaviour of
  the network, \<^verbatim>\<open>fetch_many\<close> returns, and what it returns is, task by task in the order
  of the urls, the article of each task whose \<^verbatim>\<open>fetch_one\<close> gave an article with status
  200 and nothing for a task that gave \<^verbatim>\<open>None\<close> or another status: what one task
  contributes depends on its own url and on the reaction to its own request only. As a
  set, the result is exactly the articles with status 200 among the tasks' results. An
  exception or a \<^verbatim>\<open>None\<close> among the gathered results changes nothing of what the filter
  keeps of the others.
\<close>

theorem C3_batch:
  assumes "0 < semaphore self"
  shows "\<exists>fetched self'. fetch_many lib world self urls = Some (fetched, self')
     \<and> fetched = concat (map (\<lambda>i.
          case fst (fetch_one lib self (urls ! i) (fst (world i)) (snd (world i))) of
            Some a \<Rightarrow> if status a = 200 then [a] else []
          | None \<Rightarrow> []) [0..<length urls])
     \<and> set fetched = {a. status a = 200 \<and>
          (\<exists>i<length urls.
             fst (fetch_one lib self (urls ! i) (fst (world i)) (snd (world i))) = Some a)}
     \<and> (\<forall>rs rs' e. filter_results (rs @ Inl e # rs') = filter_results (rs @ rs')
                  \<and> filter_results (rs @ Inr None # rs') = filter_results (rs @ rs'))"
proof -
  obtain results self' where g: "gather lib world self 0 urls = (results, self')"
    by (cases "gather lib world self 0 urls")
  have r: "results = map (\<lambda>j. Inr (fst (fetch_one lib self (urls ! j) (fst (world j))
                (snd (world j))))) [0..<length urls]"
    using gather_results [of lib world self 0 urls] g by simp
  have m: "fetch_many lib world self urls = Some (filter_results results, self')"
    using assms g by (simp add: fetch_many_def)
  have c: "filter_results results = concat (map (\<lambda>i.
          case fst (fetch_one lib self (urls ! i) (fst (world i)) (snd (world i))) of
            Some a \<Rightarrow> if status a = 200 then [a] else []
          | None \<Rightarrow> []) [0..<length urls])"
    unfolding filter_results_concat r by (simp add: comp_def)
  have s: "set (filter_results results) = {a. status a = 200 \<and>
          (\<exists>i<length urls.
             fst (fetch_one lib self (urls ! i) (fst (world i)) (snd (world i))) = Some a)}"
  proof -
    have "\<And>a. Inr (Some a) \<in> set results \<longleftrightarrow>
          (\<exists>i<length urls.
             fst (fetch_one lib self (urls ! i) (fst (world i)) (snd (world i))) = Some a)"
      unfolding r by (auto simp: image_iff Bex_def)
    then show ?thesis
      unfolding filter_results_set by auto
  qed
  have d: "\<forall>rs rs' e. filter_results (rs @ Inl e # rs') = filter_results (rs @ rs')
                  \<and> filter_results (rs @ Inr None # rs') = filter_results (rs @ rs')"
    by (simp add: filter_results_append)
  from m c s d show ?thesis by simp
qed

theorem C3_batch_witness:
  "0 < semaphore (entered 2)
   \<and> (\<exists>self'. fetch_many (document_lib (Node ''[document]'' [] [Node ''title'' [72, 105] []]))
          (\<lambda>i. if i = 0 then (Response 200 (Inr [60]), 1)
               else if i = 1 then (Response 404 (Inr []), 2)
               else (GetRaises TimeoutError, 3))
          (entered 2) [[97], [98], [99]]
        = Some ([\<lparr>title = [72, 105], url = [97], content = [], fetched_at = 1, status = 200\<rparr>],
                self'))"
proof -
  have h: "0 < semaphore (entered 2)" by (simp add: entered_def)
  have run: "fetch_many (document_lib (Node ''[document]'' [] [Node ''title'' [72, 105] []]))
          (\<lambda>i. if i = 0 then (Response 200 (Inr [60]), 1)
               else if i = 1 then (Response 404 (Inr []), 2)
               else (GetRaises TimeoutError, 3))
          (entered 2) [[97], [98], [99]]
        = Some ([\<lparr>title = [72, 105], url = [97], content = [], fetched_at = 1, status = 200\<rparr>],
                (entered 2)\<lparr>stats_success := 1, stats_failed := 2\<rparr>)"
    by (simp add: fetch_many_def fetch_one_def document_lib_def entered_def extract_title_def
        title_selectors_def extract_content_def)
  show ?thesis
    using h run
      C3_batch [OF h, of "document_lib (Node ''[document]'' [] [Node ''title'' [72, 105] []])"
        "\<lambda>i. if i = 0 then (Response 200 (Inr [60]), 1)
               else if i = 1 then (Response 404 (Inr []), 2)
               else (GetRaises TimeoutError, 3)" "[[97], [98], [99]]"]
    by simp
qed

section \<open>Properties of the Concurrency Gate\<close>

lemma count_update_in:
  "i < length ps \<Longrightarrow> ps ! i \<noteq> Running \<Longrightarrow>
   length (filter (\<lambda>p. p = Running) (ps[i := Running])) = Suc (length (filter (\<lambda>p. p = Running) ps))"
proof (induction ps arbitrary: i)
  case Nil
  then show ?case by simp
next
  case (Cons p ps)
  then show ?case by (cases i) auto
qed

lemma count_update_out:
  "i < length ps \<Longrightarrow> ps ! i = Running \<Longrightarrow> q \<noteq> Running \<Longrightarrow>
   Suc (length (filter (\<lambda>p. p = Running) (ps[i := q]))) = length (filter (\<lambda>p. p = Running) ps)"
proof (induction ps arbitrary: i)
  case Nil
  then show ?case by simp
next
  case (Cons p ps)
  then show ?case by (cases i) auto
qed

lemma step_permits:
  assumes "step lib world urls s s'"
  shows "permits s' + running s' = permits s + running s"
  using assms
proof (cases rule: step.cases)
  case (acquire i)
  then show ?thesis
    using count_update_in [of i "phases s"] by (simp add: running_def)
next
  case (returns i r self')
  then show ?thesis
    using count_update_out [of i "phases s" "Finished (Inr r)"] by (simp add: running_def)
next
  case (raises i e)
  then show ?thesis
    using count_update_out [of i "phases s" "Finished (Inl e)"] by (simp add: running_def)
qed

lemma running_start: "running (start self urls) = 0"
  by (simp add: running_def start_def)

lemma reachable_permits:
  "reachable lib world self urls s \<Longrightarrow> permits s + running s = semaphore self"
proof (induction rule: reachable.induct)
  case at_start
  show ?case by (simp add: running_start) (simp add: start_def)
next
  case (after_step s s')
  then show ?case using step_permits [of lib world urls s s'] by simp
qed

lemma step_leaves_running:
  assumes "step lib world urls s s'" "i < length (phases s)" "phases s ! i = Running"
    "phases s' ! i \<noteq> Running"
  shows "permits s' = Suc (permits s) \<and> (\<exists>r. phases s' ! i = Finished r)"
  using assms(1)
proof (cases rule: step.cases)
  case (acquire j)
  with assms show ?thesis by (cases "i = j") simp_all
next
  case (returns j r self')
  with assms show ?thesis by (cases "i = j") simp_all
next
  case (raises j e)
  with assms show ?thesis by (cases "i = j") simp_all
qed

lemma running_can_leave:
  assumes "i < length (phases s)" "phases s ! i = Running"
  shows "\<exists>s'. step lib world urls s s' \<and> permits s' = Suc (permits s)
           \<and> (\<exists>r. phases s' ! i = Finished r)"
proof -
  obtain r self' where
    f: "fetch_one lib (crawler s) (urls ! i) (fst (world i)) (snd (world i)) = (r, self')"
    by (cases "fetch_one lib (crawler s) (urls ! i) (fst (world i)) (snd (world i))")
  let ?s' = "s\<lparr>permits := permits s + 1, phases := (phases s)[i := Finished (Inr r)],
          crawler := self'\<rparr>"
  have "step lib world urls s ?s'"
    using assms f by (rule step.returns)
  moreover have "permits ?s' = Suc (permits s)" by simp
  moreover have "phases ?s' ! i = Finished (Inr r)" using assms(1) by simp
  ultimately show ?thesis by blast
qed

text \<open>
  C7. In every state that a batch can reach, for every number of urls and every number
  of permits, the number of tasks between acquire and release is at most the number of
  permits the semaphore was made with (free permits and running tasks always add up to
  it); whenever a running task leaves the block, by a return or by an exception, the
  step gives its permit back; and a running task can always leave.
\<close>

theorem C7_at_most_K:
  assumes "reachable lib world self urls s"
  shows "running s \<le> semaphore self
     \<and> permits s + running s = semaphore self
     \<and> (\<forall>s' i. step lib world urls s s' \<and> i < length (phases s) \<and> phases s ! i = Running
                \<and> phases s' ! i \<noteq> Running
            \<longrightarrow> permits s' = Suc (permits s) \<and> (\<exists>r. phases s' ! i = Finished r))
     \<and> (\<forall>i. i < length (phases s) \<and> phases s ! i = Running
            \<longrightarrow> (\<exists>s'. step lib world urls s s' \<and> permits s' = Suc (permits s)
                      \<and> (\<exists>r. phases s' ! i = Finished r)))"
proof -
  have p: "permits s + running s = semaphore self"
    using assms by (rule reachable_permits)
  then have "running s \<le> semaphore self" by simp
  moreover note p
  moreover have "\<forall>s' i. step lib world urls s s' \<and> i < length (phases s)
                \<and> phases s ! i = Running \<and> phases s' ! i \<noteq> Running
            \<longrightarrow> permits s' = Suc (permits s) \<and> (\<exists>r. phases s' ! i = Finished r)"
    using step_leaves_running [of lib world urls s] by blast
  moreover have "\<forall>i. i < length (phases s) \<and> phases s ! i = Running
            \<longrightarrow> (\<exists>s'. step lib world urls s s' \<and> permits s' = Suc (permits s)
                      \<and> (\<exists>r. phases s' ! i = Finished r))"
    using running_can_leave [of _ s lib world urls] by blast
  ultimately show ?thesis by (intro conjI)
qed

theorem C7_at_most_K_witness:
  "reachable (document_lib (Node [] [] [])) (\<lambda>i. (GetRaises TimeoutError, 0)) (entered 1)
      [[97], [98]] \<lparr>permits = 0, phases = [Running, Waiting], crawler = entered 1\<rparr>
   \<and> running \<lparr>permits = 0, phases = [Running, Waiting], crawler = entered 1\<rparr> = 1
   \<and> running \<lparr>permits = 0, phases = [Running, Waiting], crawler = entered 1\<rparr>
       \<le> semaphore (entered 1)"
proof -
  have s0: "start (entered 1) [[97], [98]]
      = \<lparr>permits = 1, phases = [Waiting, Waiting], crawler = entered 1\<rparr>"
    by (simp add: start_def entered_def)
  have "step (document_lib (Node [] [] [])) (\<lambda>i. (GetRaises TimeoutError, 0)) [[97], [98]]
      \<lparr>permits = 1, phases = [Waiting, Waiting], crawler = entered 1\<rparr>
      (\<lparr>permits = 1, phases = [Waiting, Waiting], crawler = entered 1\<rparr>
         \<lparr>permits := permits \<lparr>permits = 1, phases = [Waiting, Waiting], crawler = entered 1\<rparr> - 1,
          phases := (phases \<lparr>permits = 1, phases = [Waiting, Waiting], crawler = entered 1\<rparr>)
                      [0 := Running]\<rparr>)"
    by (rule step.acquire) simp_all
  then have st: "step (document_lib (Node [] [] [])) (\<lambda>i. (GetRaises TimeoutError, 0)) [[97], [98]]
      \<lparr>permits = 1, phases = [Waiting, Waiting], crawler = entered 1\<rparr>
      \<lparr>permits = 0, phases = [Running, Waiting], crawler = entered 1\<rparr>"
    by simp
  have r: "reachable (document_lib (Node [] [] [])) (\<lambda>i. (GetRaises TimeoutError, 0)) (entered 1)
      [[97], [98]] \<lparr>permits = 0, phases = [Running, Waiting], crawler = entered 1\<rparr>"
    using reachable.at_start [of "document_lib (Node [] [] [])"
        "\<lambda>i. (GetRaises TimeoutError, 0)" "entered 1" "[[97], [98]]"] st
    unfolding s0 by (rule reachable.after_step)
  show ?thesis
    using r C7_at_most_K [OF r] by (simp add: running_def)
qed

section \<open>The interleavings and the gathered results\<close>

lemma step_length: "step lib world urls s s' \<Longrightarrow> length (phases s') = length (phases s)"
  by (auto elim!: step.cases)

lemma reachable_length: "reachable lib world self urls s \<Longrightarrow> length (phases s) = length urls"
  by (induction rule: reachable.induct) (simp_all add: start_def step_length)

lemma step_session:
  assumes "step lib world urls s s'"
  shows "session (crawler s') = session (crawler s)"
  using assms
proof (cases rule: step.cases)
  case (returns i r self')
  then show ?thesis
    using fetch_one_session [of lib "crawler s" "urls ! i" "fst (world i)" "snd (world i)"]
    by simp
qed simp_all

lemma reachable_session:
  "reachable lib world self urls s \<Longrightarrow> session (crawler s) = session self"
  by (induction rule: reachable.induct) (simp_all add: start_def step_session)

text \<open>
  In every state of every interleaving, a task that has returned holds the result that
  \<open>gather\<close> computes for it.
\<close>

lemma reachable_result:
  assumes "reachable lib world self urls s" "i < length urls" "phases s ! i = Finished (Inr r)"
  shows "r = fst (fetch_one lib self (urls ! i) (fst (world i)) (snd (world i)))"
  using assms
proof (induction arbitrary: r rule: reachable.induct)
  case at_start
  then show ?case by (simp add: start_def)
next
  case (after_step s s')
  have len: "length (phases s) = length urls"
    using after_step.hyps(1) by (rule reachable_length)
  from after_step.hyps(2) show ?case
  proof (cases rule: step.cases)
    case (acquire j)
    with after_step.prems after_step.IH len show ?thesis
      by (cases "i = j") simp_all
  next
    case (returns j r' self')
    show ?thesis
    proof (cases "i = j")
      case True
      have "session (crawler s) = session self"
        using after_step.hyps(1) by (rule reachable_session)
      then have "fst (fetch_one lib (crawler s) (urls ! j) (fst (world j)) (snd (world j)))
               = fst (fetch_one lib self (urls ! j) (fst (world j)) (snd (world j)))"
        by (rule fetch_one_result_session)
      with returns True after_step.prems len show ?thesis by simp
    next
      case False
      with returns after_step.prems after_step.IH show ?thesis by simp
    qed
  next
    case (raises j e)
    with after_step.prems after_step.IH len show ?thesis
      by (cases "i = j") simp_all
  qed
qed

lemma running_0_iff: "running s = 0 \<longleftrightarrow> Running \<notin> set (phases s)"
  by (auto simp: running_def filter_empty_conv)

text \<open>With a permit in the semaphore, a batch with an unfinished task can take a step.\<close>

lemma progress:
  assumes "reachable lib world self urls s" "0 < semaphore self"
    "i < length (phases s)" "\<not> finished (phases s ! i)"
  shows "\<exists>s'. step lib world urls s s'"
proof (cases "Running \<in> set (phases s)")
  case True
  then obtain j where j: "j < length (phases s)" "phases s ! j = Running"
    by (auto simp: in_set_conv_nth)
  obtain r self' where
    "fetch_one lib (crawler s) (urls ! j) (fst (world j)) (snd (world j)) = (r, self')"
    by (cases "fetch_one lib (crawler s) (urls ! j) (fst (world j)) (snd (world j))")
  with j show ?thesis by (blast intro: step.returns)
next
  case False
  then have "running s = 0" by (simp add: running_0_iff)
  with reachable_permits [OF assms(1)] assms(2) have p: "0 < permits s" by simp
  from False assms(3) have "phases s ! i \<noteq> Running" by (metis nth_mem)
  with assms(4) have "phases s ! i = Waiting"
    by (cases "phases s ! i") (simp_all add: finished_def)
  with assms(3) p show ?thesis by (blast intro: step.acquire)
qed

text \<open>
  A semaphore made with no permit: no task of the batch can take a step, so a batch of
  at least one task never finishes.
\<close>

lemma no_permit_no_step:
  assumes "semaphore self = 0"
  shows "\<not> step lib world urls (start self urls) s'"
proof
  assume "step lib world urls (start self urls) s'"
  then show False
    using assms by (cases rule: step.cases) (simp_all add: start_def)
qed

lemma filter_update_eq:
  "i < length ps \<Longrightarrow>
   length (filter P (ps[i := q])) + (if P (ps ! i) then 1 else 0)
     = length (filter P ps) + (if P q then 1 else 0)"
proof (induction ps arbitrary: i)
  case Nil
  then show ?case by simp
next
  case (Cons p ps)
  show ?case
  proof (cases i)
    case 0
    then show ?thesis by simp
  next
    case (Suc k)
    with Cons.prems have "k < length ps" by simp
    from Cons.IH [OF this] Suc show ?thesis by simp
  qed
qed

lemma step_steps_left:
  assumes "step lib world urls s s'"
  shows "Suc (steps_left s') = steps_left s"
  using assms
proof (cases rule: step.cases)
  case (acquire i)
  then show ?thesis
    using filter_update_eq [of i "phases s" "\<lambda>p. p = Waiting" Running]
      filter_update_eq [of i "phases s" "\<lambda>p. p = Running" Running]
    by (simp add: steps_left_def)
next
  case (returns i r self')
  then show ?thesis
    using filter_update_eq [of i "phases s" "\<lambda>p. p = Waiting" "Finished (Inr r)"]
      filter_update_eq [of i "phases s" "\<lambda>p. p = Running" "Finished (Inr r)"]
    by (simp add: steps_left_def)
next
  case (raises i e)
  then show ?thesis
    using filter_update_eq [of i "phases s" "\<lambda>p. p = Waiting" "Finished (Inl e)"]
      filter_update_eq [of i "phases s" "\<lambda>p. p = Running" "Finished (Inl e)"]
    by (simp add: steps_left_def)
qed

lemma steps_left_0:
  "steps_left s = 0 \<longleftrightarrow> list_all finished (phases s)"
proof -
  have "\<And>p. finished p \<longleftrightarrow> p \<noteq> Waiting \<and> p \<noteq> Running"
    by (simp add: finished_def split: phase.splits)
  then show ?thesis
    by (auto simp: steps_left_def filter_empty_conv list_all_iff)
qed

text \<open>
  With a permit in the semaphore, every interleaving can be continued to the end of the
  batch, where every task has finished.
\<close>

lemma batch_completes:
  assumes "0 < semaphore self"
  shows "reachable lib world self urls s \<Longrightarrow>
     \<exists>s'. reachable lib world self urls s' \<and> list_all finished (phases s')"
proof (induction "steps_left s" arbitrary: s)
  case 0
  then show ?case using steps_left_0 [of s] by auto
next
  case (Suc n)
  from Suc.hyps(2) have "\<not> list_all finished (phases s)"
    using steps_left_0 [of s] by simp
  then obtain i where "i < length (phases s)" "\<not> finished (phases s ! i)"
    by (auto simp: list_all_length)
  from progress [OF Suc.prems assms this] obtain s' where s': "step lib world urls s s'" ..
  with Suc.hyps(2) have "n = steps_left s'" using step_steps_left [OF s'] by simp
  moreover have "reachable lib world self urls s'"
    using Suc.prems s' by (rule reachable.after_step)
  ultimately show ?case by (rule Suc.hyps(1))
qed

text \<open>
  At the end of a batch in which no task raised, the results are those of \<open>gather\<close>,
  whatever the interleaving was.
\<close>

lemma final_results:
  assumes "reachable lib world self urls s"
    "list_all (\<lambda>p. \<exists>r. p = Finished (Inr r)) (phases s)"
  shows "phases s = map Finished (fst (gather lib world self 0 urls))"
proof (rule nth_equalityI)
  show "length (phases s) = length (map Finished (fst (gather lib world self 0 urls)))"
    using reachable_length [OF assms(1)] by (simp add: gather_results)
next
  fix i assume i: "i < length (phases s)"
  then have iu: "i < length urls" using reachable_length [OF assms(1)] by simp
  from assms(2) i obtain r where r: "phases s ! i = Finished (Inr r)"
    by (auto simp: list_all_length)
  from reachable_result [OF assms(1) iu r] r iu
  show "phases s ! i = map Finished (fst (gather lib world self 0 urls)) ! i"
    by (simp add: gather_results)
qed

section \<open>Properties of the Pipeline Coordinator\<close>

text \<open>
  What \<^verbatim>\<open>insert_article\<close> can raise: the errors of \<^verbatim>\<open>connect\<close> and \<^verbatim>\<open>commit\<close>, which
  are outside its \<^verbatim>\<open>try\<close>, and \<^verbatim>\<open>UnicodeEncodeError\<close> or \<^verbatim>\<open>OverflowError\<close> from
  the binding of a text that cannot be bound, which \<^verbatim>\<open>except sqlite3.Error\<close> does not
  catch.
\<close>

lemma except_sqlite3_Error_Inl:
  "except_sqlite3_Error e0 db = (Inl e, db') \<Longrightarrow> e = e0 \<and> e0 \<noteq> SqliteError"
  by (cases e0) auto

lemma run_statement_Inl:
  "run_statement numeric k now bound db = Inl e \<Longrightarrow> e = SqliteError"
  by (induction numeric k now bound db rule: run_statement.induct)
     (auto split: option.splits)

lemma upsert_Inl:
  assumes "upsert numeric k now article db = Inl e"
  shows "e = SqliteError \<or> bind_parameters article = Inl e"
proof (cases "bind_parameters article")
  case (Inl e')
  with assms have "e' = e" by (simp add: upsert_def)
  with Inl show ?thesis by simp
next
  case (Inr bound)
  with assms run_statement_Inl [of numeric k now bound db e] show ?thesis
    by (simp add: upsert_def)
qed

lemma insert_article_raises:
  assumes "insert_article numeric ev now article db = (Inl e, db')"
  shows "ev = ConnectError \<or> ev = CommitError
     \<or> ((e = UnicodeEncodeError \<or> e = OverflowError) \<and> bind_parameters article = Inl e)"
proof (cases ev)
  case (Executes k)
  show ?thesis
  proof (cases "upsert numeric k now article db")
    case (Inl e')
    with assms Executes have "except_sqlite3_Error e' db = (Inl e, db')"
      by (simp add: insert_article_def)
    from except_sqlite3_Error_Inl [OF this] have x: "e = e' \<and> e' \<noteq> SqliteError" .
    with upsert_Inl [OF Inl] have "bind_parameters article = Inl e" by auto
    with x bind_parameters_Inl [of article e] show ?thesis by auto
  next
    case (Inr x)
    with assms Executes show ?thesis by (cases x) (simp add: insert_article_def)
  qed
next
  case ConnectError
  then show ?thesis by simp
next
  case PrepareError
  with assms show ?thesis by (simp add: insert_article_def)
next
  case ExecuteError
  show ?thesis
  proof (cases "bind_parameters article")
    case (Inl e')
    with assms ExecuteError have "except_sqlite3_Error e' db = (Inl e, db')"
      by (simp add: insert_article_def)
    from except_sqlite3_Error_Inl [OF this] bind_parameters_Inl [OF Inl] Inl show ?thesis
      by auto
  next
    case (Inr bound)
    with assms ExecuteError show ?thesis by (simp add: insert_article_def)
  qed
next
  case CommitError
  then show ?thesis by simp
qed

text \<open>The record of an article is bound as it is when its five values can be bound.\<close>

lemma article_to_record_bound:
  assumes "bindable (PyStr (take 200 (title a)))" "bindable (PyStr (url a))"
    "bindable (PyStr (take 2000 (content a)))" "bindable (PyStr source)"
    "bindable (PyStr (fmt (fetched_at a)))"
  shows "bind_parameters (article_to_record fmt a source)
     = Inr (PyStr (take 200 (title a)), PyStr (url a), PyStr (take 2000 (content a)),
            PyStr source, PyStr (fmt (fetched_at a)))"
  unfolding bind_parameters_Inr using assms
  by (simp add: article_to_record_def)

lemma store_loop_trace:
  assumes "store_loop numeric fmt sworld source n fetched db stored = (Inr stored', db')"
  shows "length (store_trace numeric fmt sworld source n fetched db)
           = length (filter (\<lambda>a. status a = 200) fetched)
     \<and> stored' = stored + int (length (filter counted (store_trace numeric fmt sworld source n fetched db)))"
  using assms
proof (induction fetched arbitrary: n db stored)
  case Nil
  then show ?case by simp
next
  case (Cons article rest)
  show ?case
  proof (cases "status article = 200")
    case False
    with Cons.prems Cons.IH [of n db stored] show ?thesis by simp
  next
    case True
    obtain res db1 where i: "insert_article numeric (fst (sworld n)) (snd (sworld n))
                (article_to_record fmt article source) db = (res, db1)"
      by (cases "insert_article numeric (fst (sworld n)) (snd (sworld n))
                (article_to_record fmt article source) db")
    show ?thesis
    proof (cases res)
      case (Inl e)
      with Cons.prems True i show ?thesis by simp
    next
      case (Inr article_id)
      have l: "store_loop numeric fmt sworld source (Suc n) rest db1
                 (if truthy article_id then stored + 1 else stored) = (Inr stored', db')"
        using Cons.prems True i Inr by simp
      from Cons.IH [OF l] True i Inr show ?thesis by simp
    qed
  qed
qed

text \<open>
  On a table whose rowids start at 1, every identifier that the store returns is
  counted: the test \<^verbatim>\<open>if article_id:\<close> passes over \<^verbatim>\<open>None\<close> only.
\<close>

lemma store_trace_counted:
  assumes "table_ok db"
  shows "filter counted (store_trace numeric fmt sworld source n fetched db)
           = filter returned_id (store_trace numeric fmt sworld source n fetched db)"
  using assms
proof (induction fetched arbitrary: n db)
  case Nil
  show ?case by simp
next
  case (Cons article rest)
  show ?case
  proof (cases "status article = 200")
    case False
    with Cons.IH [OF Cons.prems, of n] show ?thesis by simp
  next
    case True
    obtain res db1 where i: "insert_article numeric (fst (sworld n)) (snd (sworld n))
                (article_to_record fmt article source) db = (res, db1)"
      by (cases "insert_article numeric (fst (sworld n)) (snd (sworld n))
                (article_to_record fmt article source) db")
    show ?thesis
    proof (cases res)
      case (Inl e)
      with True i show ?thesis by simp
    next
      case (Inr article_id)
      have ok1: "table_ok db1"
        using Cons.prems i by (rule insert_article_table_ok)
      have t: "counted (Inr article_id) = returned_id (Inr article_id)"
      proof (cases article_id)
        case None
        then show ?thesis by simp
      next
        case (Some k)
        with insert_article_id_pos [OF Cons.prems] i Inr have "1 \<le> k" by blast
        with Some show ?thesis by simp
      qed
      from Cons.IH [OF ok1, of "Suc n"] True i Inr t show ?thesis by simp
    qed
  qed
qed

text \<open>
  When no call of the store raises from \<^verbatim>\<open>connect\<close> or \<^verbatim>\<open>commit\<close>, the storing loop
  ends with a count, or with the exception of a record that cannot be bound.
\<close>

lemma store_loop_result:
  assumes "\<forall>n. fst (sworld n) \<noteq> ConnectError \<and> fst (sworld n) \<noteq> CommitError"
  shows "(\<exists>stored' db'. store_loop numeric fmt sworld source n fetched db stored = (Inr stored', db'))
     \<or> (\<exists>e. (e = UnicodeEncodeError \<or> e = OverflowError)
          \<and> (\<exists>db'. store_loop numeric fmt sworld source n fetched db stored = (Inl e, db'))
          \<and> (\<exists>a \<in> set fetched. bind_parameters (article_to_record fmt a source) = Inl e))"
proof (induction fetched arbitrary: n db stored)
  case Nil
  show ?case by simp
next
  case (Cons article rest)
  show ?case
  proof (cases "status article = 200")
    case False
    with Cons.IH [of n db stored] show ?thesis by auto
  next
    case True
    obtain res db1 where i: "insert_article numeric (fst (sworld n)) (snd (sworld n))
                (article_to_record fmt article source) db = (res, db1)"
      by (cases "insert_article numeric (fst (sworld n)) (snd (sworld n))
                (article_to_record fmt article source) db")
    show ?thesis
    proof (cases res)
      case (Inl e)
      with i insert_article_raises [of numeric "fst (sworld n)" "snd (sworld n)"
          "article_to_record fmt article source" db e db1] assms
      have "(e = UnicodeEncodeError \<or> e = OverflowError)
          \<and> bind_parameters (article_to_record fmt article source) = Inl e"
        by blast
      with True i Inl show ?thesis by auto
    next
      case (Inr article_id)
      with Cons.IH [of "Suc n" db1 "if truthy article_id then stored + 1 else stored"] True i
      show ?thesis by auto
    qed
  qed
qed

lemma store_loop_returns:
  assumes "\<forall>n. fst (sworld n) \<noteq> ConnectError \<and> fst (sworld n) \<noteq> CommitError"
    and "bindable (PyStr source)"
    and "\<forall>a \<in> set fetched.
            bindable (PyStr (take 200 (title a))) \<and> bindable (PyStr (url a))
          \<and> bindable (PyStr (take 2000 (content a))) \<and> bindable (PyStr (fmt (fetched_at a)))"
  shows "\<exists>stored' db'. store_loop numeric fmt sworld source n fetched db stored = (Inr stored', db')"
proof -
  have "bind_parameters (article_to_record fmt a source) \<noteq> Inl e"
    if "a \<in> set fetched" for a e
    using that assms(2,3) article_to_record_bound [of a source fmt] by simp
  with store_loop_result [OF assms(1), of numeric fmt source n fetched db stored]
  show ?thesis by blast
qed

lemma fetch_many_status:
  "fetch_many lib world self urls = Some (fetched, self') \<Longrightarrow>
   filter (\<lambda>a. status a = 200) fetched = fetched \<and> length fetched \<le> length urls"
proof -
  assume a: "fetch_many lib world self urls = Some (fetched, self')"
  obtain results self2 where g: "gather lib world self 0 urls = (results, self2)"
    by (cases "gather lib world self 0 urls")
  from a g have f: "fetched = filter_results results"
    by (auto simp: fetch_many_def split: if_splits)
  have "length results = length urls"
    using gather_results [of lib world self 0 urls] g by simp
  moreover have "length (filter_results rs) \<le> length rs" for rs
    by (induction rs rule: filter_results.induct) auto
  ultimately have "length fetched \<le> length urls" unfolding f by metis
  moreover have "filter (\<lambda>a. status a = 200) fetched = fetched"
    unfolding f using filter_results_status by (intro filter_True) blast
  ultimately show ?thesis by simp
qed

lemma crawl_and_store_Returns:
  assumes "crawl_and_store lib numeric fmt world sworld db urls source k d = (Returns st, db')"
  shows "\<exists>self fetched self'. AsyncCrawler_init k d 30 = Inr self
     \<and> fetch_many lib world (aenter self) urls = Some (fetched, self')
     \<and> store_loop numeric fmt sworld source 0 fetched db 0 = (Inr (s_stored st), db')
     \<and> s_total st = int (length urls)
     \<and> s_success st = int (length (filter (\<lambda>a. status a = 200) fetched))
     \<and> s_failed st = int (length urls) - int (length (filter (\<lambda>a. status a = 200) fetched))"
proof (cases "AsyncCrawler_init k d 30")
  case (Inl e)
  with assms show ?thesis by (simp add: crawl_and_store_def)
next
  case (Inr self)
  note c = this
  show ?thesis
  proof (cases "fetch_many lib world (aenter self) urls")
    case None
    with assms c show ?thesis by (simp add: crawl_and_store_def)
  next
    case (Some p)
    obtain fetched self' where p: "p = (fetched, self')" by (cases p)
    obtain res db1 where l: "store_loop numeric fmt sworld source 0 fetched db 0 = (res, db1)"
      by (cases "store_loop numeric fmt sworld source 0 fetched db 0")
    show ?thesis
    proof (cases res)
      case (Inl e)
      with assms c Some p l show ?thesis by (simp add: crawl_and_store_def)
    next
      case (Inr stored)
      with assms c Some p l show ?thesis by (auto simp: crawl_and_store_def)
    qed
  qed
qed

text \<open>
  C4. Whenever \<^verbatim>\<open>crawl_and_store\<close> returns statistics, total is the number of urls,
  success + failed = total, stored \<le> success, \<^verbatim>\<open>insert_article\<close> was called once for
  every successful outcome (none is left out because an earlier call returned
  \<^verbatim>\<open>None\<close>), and stored is the number of these calls whose result passed the test
  \<^verbatim>\<open>if article_id:\<close>; on a database that satisfies the schema these are exactly the
  calls that returned an identifier. When the gate has at least one permit and no call
  of the store raises from \<^verbatim>\<open>connect\<close> or \<^verbatim>\<open>commit\<close>, the invocation returns statistics
  or raises \<^verbatim>\<open>UnicodeEncodeError\<close> or \<^verbatim>\<open>OverflowError\<close>, and it does return statistics
  when the values of the record of every fetched article can be bound. In the witness
  the store fails on the second of three records: stored = 2, success = 3.
\<close>

theorem C4_statistics:
  "(crawl_and_store lib numeric fmt world sworld db urls source k d = (Returns st, db') \<longrightarrow>
            s_total st = int (length urls)
          \<and> s_success st + s_failed st = s_total st
          \<and> s_stored st \<le> s_success st
          \<and> (\<exists>self fetched self'.
                AsyncCrawler_init k d 30 = Inr self
              \<and> fetch_many lib world (aenter self) urls = Some (fetched, self')
              \<and> s_success st = int (length fetched)
              \<and> length (store_trace numeric fmt sworld source 0 fetched db) = length fetched
              \<and> s_stored st
                  = int (length (filter counted (store_trace numeric fmt sworld source 0 fetched db)))
              \<and> (table_ok db \<longrightarrow>
                   s_stored st
                     = int (length (filter returned_id
                                      (store_trace numeric fmt sworld source 0 fetched db))))))
     \<and> (0 < k \<and> (\<forall>n. fst (sworld n) \<noteq> ConnectError \<and> fst (sworld n) \<noteq> CommitError) \<longrightarrow>
          (\<exists>st' db''. crawl_and_store lib numeric fmt world sworld db urls source k d
                         = (Returns st', db''))
        \<or> (\<exists>db''. crawl_and_store lib numeric fmt world sworld db urls source k d
                         = (Raises UnicodeEncodeError, db''))
        \<or> (\<exists>db''. crawl_and_store lib numeric fmt world sworld db urls source k d
                         = (Raises OverflowError, db'')))
     \<and> (0 < k \<and> (\<forall>n. fst (sworld n) \<noteq> ConnectError \<and> fst (sworld n) \<noteq> CommitError)
        \<and> bindable (PyStr source)
        \<and> (\<forall>self fetched self' a.
               AsyncCrawler_init k d 30 = Inr self
             \<and> fetch_many lib world (aenter self) urls = Some (fetched, self')
             \<and> a \<in> set fetched
             \<longrightarrow> bindable (PyStr (take 200 (title a))) \<and> bindable (PyStr (url a))
                 \<and> bindable (PyStr (take 2000 (content a)))
                 \<and> bindable (PyStr (fmt (fetched_at a)))) \<longrightarrow>
          (\<exists>st' db''. crawl_and_store lib numeric fmt world sworld db urls source k d
                         = (Returns st', db'')))"
proof (intro conjI impI)
  assume r: "crawl_and_store lib numeric fmt world sworld db urls source k d = (Returns st, db')"
  from crawl_and_store_Returns [OF r] obtain self fetched self' where
    c: "AsyncCrawler_init k d 30 = Inr self"
    and f: "fetch_many lib world (aenter self) urls = Some (fetched, self')"
    and l: "store_loop numeric fmt sworld source 0 fetched db 0 = (Inr (s_stored st), db')"
    and t: "s_total st = int (length urls)"
    and s: "s_success st = int (length (filter (\<lambda>a. status a = 200) fetched))"
    and fl: "s_failed st = int (length urls) - int (length (filter (\<lambda>a. status a = 200) fetched))"
    by blast
  from fetch_many_status [OF f] have all: "filter (\<lambda>a. status a = 200) fetched = fetched" ..
  from store_loop_trace [OF l] all have
    len: "length (store_trace numeric fmt sworld source 0 fetched db) = length fetched"
    and st: "s_stored st
      = int (length (filter counted (store_trace numeric fmt sworld source 0 fetched db)))"
    by simp_all
  show "s_total st = int (length urls)" by (rule t)
  show "s_success st + s_failed st = s_total st" using t s fl by simp
  have "length (filter counted (store_trace numeric fmt sworld source 0 fetched db))
          \<le> length (store_trace numeric fmt sworld source 0 fetched db)"
    by (rule length_filter_le)
  then show "s_stored st \<le> s_success st" using st len s all by simp
  have "table_ok db \<longrightarrow>
          s_stored st
            = int (length (filter returned_id (store_trace numeric fmt sworld source 0 fetched db)))"
    using st store_trace_counted [of db numeric fmt sworld source 0 fetched] by simp
  then show "\<exists>self fetched self'.
                AsyncCrawler_init k d 30 = Inr self
              \<and> fetch_many lib world (aenter self) urls = Some (fetched, self')
              \<and> s_success st = int (length fetched)
              \<and> length (store_trace numeric fmt sworld source 0 fetched db) = length fetched
              \<and> s_stored st
                  = int (length (filter counted (store_trace numeric fmt sworld source 0 fetched db)))
              \<and> (table_ok db \<longrightarrow>
                   s_stored st
                     = int (length (filter returned_id
                                      (store_trace numeric fmt sworld source 0 fetched db))))"
    using c f s all len st by auto
next
  assume h: "0 < k \<and> (\<forall>n. fst (sworld n) \<noteq> ConnectError \<and> fst (sworld n) \<noteq> CommitError)"
  then have c: "AsyncCrawler_init k d 30
      = Inr \<lparr>semaphore = nat k, delay = d, timeout = 30, session = False,
              stats_success = 0, stats_failed = 0\<rparr>"
    by (simp add: AsyncCrawler_init_def)
  from h have "0 < semaphore (aenter \<lparr>semaphore = nat k, delay = d, timeout = 30, session = False,
              stats_success = 0, stats_failed = 0\<rparr>)"
    by (simp add: aenter_def)
  then obtain fetched self' where
    f: "fetch_many lib world (aenter \<lparr>semaphore = nat k, delay = d, timeout = 30, session = False,
              stats_success = 0, stats_failed = 0\<rparr>) urls = Some (fetched, self')"
    by (cases "gather lib world (aenter \<lparr>semaphore = nat k, delay = d, timeout = 30,
              session = False, stats_success = 0, stats_failed = 0\<rparr>) 0 urls")
       (simp add: fetch_many_def)
  from h store_loop_result [of sworld numeric fmt source 0 fetched db 0] consider
    (returns) stored' db'' where
      "store_loop numeric fmt sworld source 0 fetched db 0 = (Inr stored', db'')"
  | (encode) db'' where
      "store_loop numeric fmt sworld source 0 fetched db 0 = (Inl UnicodeEncodeError, db'')"
  | (overflow) db'' where
      "store_loop numeric fmt sworld source 0 fetched db 0 = (Inl OverflowError, db'')"
    by blast
  then show "(\<exists>st' db''. crawl_and_store lib numeric fmt world sworld db urls source k d
                         = (Returns st', db''))
        \<or> (\<exists>db''. crawl_and_store lib numeric fmt world sworld db urls source k d
                         = (Raises UnicodeEncodeError, db''))
        \<or> (\<exists>db''. crawl_and_store lib numeric fmt world sworld db urls source k d
                         = (Raises OverflowError, db''))"
  proof cases
    case returns
    with c f show ?thesis by (simp add: crawl_and_store_def)
  next
    case encode
    with c f show ?thesis by (simp add: crawl_and_store_def)
  next
    case overflow
    with c f show ?thesis by (simp add: crawl_and_store_def)
  qed
next
  assume h: "0 < k \<and> (\<forall>n. fst (sworld n) \<noteq> ConnectError \<and> fst (sworld n) \<noteq> CommitError)
        \<and> bindable (PyStr source)
        \<and> (\<forall>self fetched self' a.
               AsyncCrawler_init k d 30 = Inr self
             \<and> fetch_many lib world (aenter self) urls = Some (fetched, self')
             \<and> a \<in> set fetched
             \<longrightarrow> bindable (PyStr (take 200 (title a))) \<and> bindable (PyStr (url a))
                 \<and> bindable (PyStr (take 2000 (content a)))
                 \<and> bindable (PyStr (fmt (fetched_at a))))"
  then have c: "AsyncCrawler_init k d 30
      = Inr \<lparr>semaphore = nat k, delay = d, timeout = 30, session = False,
              stats_success = 0, stats_failed = 0\<rparr>"
    by (simp add: AsyncCrawler_init_def)
  from h have "0 < semaphore (aenter \<lparr>semaphore = nat k, delay = d, timeout = 30, session = False,
              stats_success = 0, stats_failed = 0\<rparr>)"
    by (simp add: aenter_def)
  then obtain fetched self' where
    f: "fetch_many lib world (aenter \<lparr>semaphore = nat k, delay = d, timeout = 30, session = False,
              stats_success = 0, stats_failed = 0\<rparr>) urls = Some (fetched, self')"
    by (cases "gather lib world (aenter \<lparr>semaphore = nat k, delay = d, timeout = 30,
              session = False, stats_success = 0, stats_failed = 0\<rparr>) 0 urls")
       (simp add: fetch_many_def)
  from h c f have e: "\<forall>a \<in> set fetched.
            bindable (PyStr (take 200 (title a))) \<and> bindable (PyStr (url a))
          \<and> bindable (PyStr (take 2000 (content a))) \<and> bindable (PyStr (fmt (fetched_at a)))"
    by blast
  from h have n: "\<forall>n. fst (sworld n) \<noteq> ConnectError \<and> fst (sworld n) \<noteq> CommitError"
    and es: "bindable (PyStr source)"
    by blast+
  from store_loop_returns [OF n es e, of numeric 0 db 0] obtain stored' db'' where
    "store_loop numeric fmt sworld source 0 fetched db 0 = (Inr stored', db'')"
    by blast
  with c f show "\<exists>st' db''. crawl_and_store lib numeric fmt world sworld db urls source k d
      = (Returns st', db'')"
    by (simp add: crawl_and_store_def)
qed

theorem C4_statistics_witness:
  "table_ok (empty_database :: int database) \<and> bindable (PyStr [113])
   \<and> crawl_and_store (document_lib (Node ''[document]'' [] [Node ''title'' [72, 105] []]))
        digits_reading (\<lambda>t. iso_0) (\<lambda>i. (Response 200 (Inr [60]), 1))
        (\<lambda>n. if n = 1 then (ExecuteError, current_timestamp)
             else (Executes 0, current_timestamp))
        empty_database [[97], [98], [99]] [113] 2 1
      = (Returns \<lparr>s_total = 3, s_success = 3, s_failed = 0, s_stored = 2\<rparr>,
         \<lparr>articles =
            [\<lparr>r_id = 1, r_title = [72, 105], r_url = [97], r_content = Some [],
              r_source = Some [113], r_category = None, r_fetched_at = SqlText iso_0,
              r_created_at = SqlText current_timestamp\<rparr>,
             \<lparr>r_id = 2, r_title = [72, 105], r_url = [99], r_content = Some [],
              r_source = Some [113], r_category = None, r_fetched_at = SqlText iso_0,
              r_created_at = SqlText current_timestamp\<rparr>],
          highest_rowid = 2\<rparr>)"
proof -
  have ok: "table_ok (empty_database :: int database)"
    by (simp add: table_ok_def empty_database_def)
  have run: "crawl_and_store (document_lib (Node ''[document]'' [] [Node ''title'' [72, 105] []]))
        digits_reading (\<lambda>t. iso_0) (\<lambda>i. (Response 200 (Inr [60]), 1))
        (\<lambda>n. if n = 1 then (ExecuteError, current_timestamp)
             else (Executes 0, current_timestamp))
        empty_database [[97], [98], [99]] [113] 2 1
      = (Returns \<lparr>s_total = 3, s_success = 3, s_failed = 0, s_stored = 2\<rparr>,
         \<lparr>articles =
            [\<lparr>r_id = 1, r_title = [72, 105], r_url = [97], r_content = Some [],
              r_source = Some [113], r_category = None, r_fetched_at = SqlText iso_0,
              r_created_at = SqlText current_timestamp\<rparr>,
             \<lparr>r_id = 2, r_title = [72, 105], r_url = [99], r_content = Some [],
              r_source = Some [113], r_category = None, r_fetched_at = SqlText iso_0,
              r_created_at = SqlText current_timestamp\<rparr>],
          highest_rowid = 2\<rparr>)"
    by (simp add: crawl_and_store_def AsyncCrawler_init_def aenter_def fetch_many_def
        fetch_one_def document_lib_def extract_title_def title_selectors_def extract_content_def
        insert_article_def upsert_def bind_parameters_def bind_parameter_def
        article_to_record_def new_rowid_def empty_database_def)
  show ?thesis
    using ok run
      C4_statistics [of "document_lib (Node ''[document]'' [] [Node ''title'' [72, 105] []])"
        digits_reading "\<lambda>t. iso_0" "\<lambda>i. (Response 200 (Inr [60]), 1)"
        "\<lambda>n. if n = 1 then (ExecuteError, current_timestamp)
             else (Executes 0, current_timestamp)"
        empty_database "[[97], [98], [99]]" "[113]" 2 1]
    by simp
qed

text \<open>
  C8 (as amended). For every concurrency value below 0 the constructor of the crawler
  raises \<^verbatim>\<open>ValueError\<close>, and \<^verbatim>\<open>crawl_and_store\<close> raises it with the database untouched,
  whatever the network and the store would do: before any fetching.
\<close>

theorem C8_negative_concurrency:
  assumes "k < 0"
  shows "AsyncCrawler_init k d t = Inl ValueError
     \<and> crawl_and_store lib numeric fmt world sworld db urls source k d = (Raises ValueError, db)"
  using assms by (simp add: AsyncCrawler_init_def crawl_and_store_def)

theorem C8_negative_concurrency_witness:
  "(- 1 :: int) < 0
   \<and> AsyncCrawler_init (- 1) 1 30 = Inl ValueError
   \<and> crawl_and_store (document_lib (Node [] [] [])) digits_reading (\<lambda>t. [])
        (\<lambda>i. (Response 200 (Inr []), 0)) (\<lambda>n. (Executes 0, [])) empty_database [[97]] [113] (- 1) 1
       = (Raises ValueError, empty_database)"
proof -
  have h: "(- 1 :: int) < 0" by simp
  show ?thesis
    using h C8_negative_concurrency [OF h, of 1 30 "document_lib (Node [] [] [])" digits_reading
        "\<lambda>t. []"
        "\<lambda>i. (Response 200 (Inr []), 0)" "\<lambda>n. (Executes 0, [])" empty_database "[[97]]" "[113]"]
    by simp
qed

text \<open>
  C8 as stated fails at 0: the constructor accepts the value, no error is raised, and
  the pipeline then waits for ever on a batch of one url (and returns statistics for
  the empty batch).
\<close>

theorem C8_zero_concurrency:
  "AsyncCrawler_init 0 1 30
     = Inr \<lparr>semaphore = 0, delay = 1, timeout = 30, session = False,
            stats_success = 0, stats_failed = 0\<rparr>
   \<and> crawl_and_store (document_lib (Node [] [] [])) digits_reading (\<lambda>t. [])
        (\<lambda>i. (Response 200 (Inr []), 0)) (\<lambda>n. (Executes 0, [])) empty_database [[97]] [113] 0 1
       = (Hangs, empty_database)
   \<and> crawl_and_store (document_lib (Node [] [] [])) digits_reading (\<lambda>t. [])
        (\<lambda>i. (Response 200 (Inr []), 0)) (\<lambda>n. (Executes 0, [])) empty_database [] [113] 0 1
       = (Returns \<lparr>s_total = 0, s_success = 0, s_failed = 0, s_stored = 0\<rparr>, empty_database)"
  by (simp add: AsyncCrawler_init_def crawl_and_store_def fetch_many_def aenter_def)

end

